theory Spec2Isabelle
  imports Main "HOL-Library.Sublist"
begin

section \<open>Data model (types.ts)\<close>

datatype page = Setup | Interview | Results | Dashboard | ResumeChecker

datatype InterviewType = behavioral | technical

record User =
  name :: string
  goal :: string

datatype speaker = Ai | User

text \<open>\<^verbatim>\<open>${msg.speaker}\<close> inside a template literal renders the tag of the union type.\<close>

fun speaker_name :: "speaker \<Rightarrow> string" where
  "speaker_name Ai = ''ai''"
| "speaker_name User = ''user''"

record TranscriptMessage =
  msg_speaker :: speaker
  msg_text :: string
  msg_image :: "string option"

datatype level = Beginner | Intermediate | Advanced

record Evaluation =
  summary :: string
  knowledge :: string
  skills :: string
  confidence :: string
  communication :: string
  level :: level

datatype resource_type = article | video | docs | interactive

record Resource =
  res_type :: resource_type
  res_title :: string
  res_url :: string

text \<open>
  \<^verbatim>\<open>Omit<RoadmapItem, 'id' | 'completed'>\<close> is the base record; \<^verbatim>\<open>RoadmapItem\<close> extends it
  with the two fields the client assigns.
\<close>

record RoadmapDraft =
  title :: string
  description :: string
  keyConcepts :: "string list"
  project :: string
  resources :: "Resource list"

record RoadmapItem = RoadmapDraft +
  item_id :: string
  completed :: bool

section \<open>The application context (AppContext) and the effects of the pages\<close>

datatype status = Idle | Listening | Speaking | Thinking | Finished

text \<open>
  The \<^verbatim>\<open>AsyncGenerator<string>\<close> returned by \<^verbatim>\<open>streamNextQuestion\<close>: it yields a
  fragment and continues, returns, or throws (a transport failure, or the
  "Chat not initialized" error, both raised inside the generator body).
\<close>

datatype generator = Yield string generator | Return | Raise

fun fragments :: "generator \<Rightarrow> string list" where
  "fragments (Yield c g) = c # fragments g"
| "fragments Return = []"
| "fragments Raise = []"

fun completes :: "generator \<Rightarrow> bool" where
  "completes (Yield c g) = completes g"
| "completes Return = True"
| "completes Raise = False"

text \<open>The callbacks handed to \<^verbatim>\<open>speak\<close>: what runs once playback has ended.\<close>

datatype on_end = SetStatusIdle | SetPageResults

text \<open>
  The calls that leave a page (to the provider, the timer and the speech sink) and the
  state updates whose order matters, recorded in the order they are performed.
\<close>

datatype effect =
    StreamNextQuestion string
  | SetCurrentAiResponse string
  | AddMessageToTranscript TranscriptMessage
  | Speak string on_end
  | Timeout nat
  | GenerateEvaluation "TranscriptMessage list" string
  | GenerateRoadmap level string

record app_context =
  page :: page
  user :: "User option"
  interviewTypes :: "InterviewType list"
  transcript :: "TranscriptMessage list"
  evaluation :: "Evaluation option"
  roadmap :: "RoadmapItem list"
  effects :: "effect list"

text \<open>
  The state of \<^verbatim>\<open>InterviewPage\<close>: the context, the component's \<^verbatim>\<open>useState\<close> cells, and
  what it reads from the \<^verbatim>\<open>useSpeech\<close> hook. \<open>speaking\<close> holds the callback of the
  utterance being played (\<^verbatim>\<open>isSpeaking\<close> is \<open>speaking s \<noteq> None\<close>); \<open>inFlight\<close> holds the
  arguments of the invocations of \<^verbatim>\<open>getNextAiMessage\<close> that were started by an effect and
  have not finished.
\<close>

record interview_state = app_context +
  status :: status
  currentAiResponse :: string
  isListening :: bool
  speaking :: "on_end option"
  inFlight :: "string list"

section \<open>InterviewPage.tsx: streaming a turn under the retry loop\<close>

definition setCurrentAiResponse :: "string \<Rightarrow> interview_state \<Rightarrow> interview_state" where
  "setCurrentAiResponse t s =
     s\<lparr>currentAiResponse := t, effects := effects s @ [SetCurrentAiResponse t]\<rparr>"

definition addMessageToTranscript :: "TranscriptMessage \<Rightarrow> interview_state \<Rightarrow> interview_state" where
  "addMessageToTranscript m s =
     s\<lparr>transcript := transcript s @ [m], effects := effects s @ [AddMessageToTranscript m]\<rparr>"

definition setStatus :: "status \<Rightarrow> interview_state \<Rightarrow> interview_state" where
  "setStatus st s = s\<lparr>status := st\<rparr>"

definition setPage :: "page \<Rightarrow> interview_state \<Rightarrow> interview_state" where
  "setPage p s = s\<lparr>page := p\<rparr>"

text \<open>
  Modelled from the spec: \<^verbatim>\<open>speak\<close> of the \<^verbatim>\<open>useSpeech\<close> hook (hooks/useSpeech), whose
  code is missing. The speech-synthesis sink "accepts text and a completion callback":
  \<open>speak\<close> starts playback and keeps the callback until playback ends.
\<close>

definition speak :: "string \<Rightarrow> on_end \<Rightarrow> interview_state \<Rightarrow> interview_state" where
  "speak t k s = s\<lparr>speaking := Some k, effects := effects s @ [Speak t k]\<rparr>"

definition setTimeout :: "nat \<Rightarrow> interview_state \<Rightarrow> interview_state" where
  "setTimeout ms s = s\<lparr>effects := effects s @ [Timeout ms]\<rparr>"

definition streamNextQuestion_called :: "string \<Rightarrow> interview_state \<Rightarrow> interview_state" where
  "streamNextQuestion_called message s = s\<lparr>effects := effects s @ [StreamNextQuestion message]\<rparr>"

text \<open>
  \<^verbatim>\<open>processStream\<close>: the \<^verbatim>\<open>for await\<close> loop with its local \<^verbatim>\<open>fullText\<close>.
  A throw of the generator leaves the loop with \<open>None\<close>.
\<close>

fun processStream_from :: "string \<Rightarrow> generator \<Rightarrow> interview_state \<Rightarrow> string option \<times> interview_state" where
  "processStream_from fullText (Yield chunkText g) s =
     processStream_from (fullText @ chunkText) g (setCurrentAiResponse (fullText @ chunkText) s)"
| "processStream_from fullText Return s = (Some fullText, s)"
| "processStream_from fullText Raise s = (None, s)"

definition processStream :: "generator \<Rightarrow> interview_state \<Rightarrow> string option \<times> interview_state" where
  "processStream g s = processStream_from [] g s"

definition maxRetries :: nat where
  "maxRetries = 2"

definition errorMessage :: string where
  "errorMessage = ''I'm sorry, I'm having trouble connecting right now. Let's end the interview here and you can review the results so far.''"

definition retryNotice :: string where
  "retryNotice = ''I'm having a little trouble connecting. Trying again in a moment...''"

text \<open>The three ways one pass of the loop of \<^verbatim>\<open>getNextAiMessage\<close> ends.\<close>

definition turn_succeeded :: "string \<Rightarrow> interview_state \<Rightarrow> interview_state" where
  "turn_succeeded fullText s =
     speak fullText SetStatusIdle
       (setStatus Speaking
         (setCurrentAiResponse []
           (addMessageToTranscript \<lparr>msg_speaker = Ai, msg_text = fullText, msg_image = None\<rparr> s)))"

definition turn_exhausted :: "interview_state \<Rightarrow> interview_state" where
  "turn_exhausted s =
     speak errorMessage SetPageResults
       (setCurrentAiResponse []
         (addMessageToTranscript \<lparr>msg_speaker = Ai, msg_text = errorMessage, msg_image = None\<rparr> s))"

definition turn_retry :: "nat \<Rightarrow> interview_state \<Rightarrow> interview_state" where
  "turn_retry attempt s =
     setTimeout (2 ^ attempt * 1000) (setCurrentAiResponse retryNotice s)"

text \<open>
  \<^verbatim>\<open>getNextAiMessage\<close>: the \<^verbatim>\<open>while (attempt <= maxRetries)\<close> loop. The provider is a
  parameter: \<open>streamNextQuestion message n\<close> is the generator handed out by the call
  made in attempt \<open>n\<close> (counted from 0). In the \<^verbatim>\<open>catch\<close> block \<^verbatim>\<open>attempt\<close> has
  already been incremented when the delay is computed.
\<close>

function getNextAiMessage_from ::
  "(string \<Rightarrow> nat \<Rightarrow> generator) \<Rightarrow> string \<Rightarrow> nat \<Rightarrow> interview_state \<Rightarrow> interview_state" where
  "getNextAiMessage_from streamNextQuestion message attempt s =
     (if attempt \<le> maxRetries then
        (case processStream (streamNextQuestion message attempt) (streamNextQuestion_called message s) of
           (Some fullText, s1) \<Rightarrow> turn_succeeded fullText s1
         | (None, s1) \<Rightarrow>
             (if attempt + 1 > maxRetries then
                getNextAiMessage_from streamNextQuestion message (attempt + 1) (turn_exhausted s1)
              else
                getNextAiMessage_from streamNextQuestion message (attempt + 1)
                  (turn_retry (attempt + 1) s1)))
      else s)"
  by pat_completeness auto
termination
  by (relation "measure (\<lambda>(p, m, attempt, s). Suc maxRetries - attempt)") auto

declare getNextAiMessage_from.simps [simp del]

definition getNextAiMessage ::
  "(string \<Rightarrow> nat \<Rightarrow> generator) \<Rightarrow> string \<Rightarrow> interview_state \<Rightarrow> interview_state" where
  "getNextAiMessage streamNextQuestion message s = getNextAiMessage_from streamNextQuestion message 0 s"

section \<open>InterviewPage.tsx: the handlers and the turn-taking state machine\<close>

text \<open>
  \<^verbatim>\<open>handleUserSpeech\<close>; \<open>img\<close> is the frame drawn on the canvas, absent when there is
  no video or no drawing context.
\<close>

definition handleUserSpeech :: "string \<Rightarrow> string option \<Rightarrow> interview_state \<Rightarrow> interview_state" where
  "handleUserSpeech t img s =
     setStatus Thinking
       (addMessageToTranscript \<lparr>msg_speaker = User, msg_text = t, msg_image = img\<rparr> s)"

text \<open>
  The two effects that start a turn. Starting \<^verbatim>\<open>getNextAiMessage(message)\<close> puts the
  message among the turns in flight; the turn's own updates happen when it finishes.
\<close>

definition openingEffect :: "interview_state \<Rightarrow> interview_state" where
  "openingEffect s =
     (if user s \<noteq> None \<and> length (transcript s) = 0 \<and> length (interviewTypes s) > 0
      then s\<lparr>inFlight := ''Start the interview.'' # inFlight s\<rparr>
      else s)"

definition replyEffect :: "interview_state \<Rightarrow> interview_state" where
  "replyEffect s =
     (if status s = Thinking \<and> length (transcript s) > 0 \<and>
         msg_speaker (last (transcript s)) = User
      then s\<lparr>inFlight := msg_text (last (transcript s)) # inFlight s\<rparr>
      else s)"

text \<open>
  Modelled from the spec: \<^verbatim>\<open>startListening\<close> and \<^verbatim>\<open>stopListening\<close> of the
  \<^verbatim>\<open>useSpeech\<close> hook, the "start/stop signals" of the speech-recognition source, as the
  flag \<^verbatim>\<open>isListening\<close> they control.
\<close>

definition handleMicClick :: "interview_state \<Rightarrow> interview_state" where
  "handleMicClick s = (if isListening s then s\<lparr>isListening := False\<rparr> else s\<lparr>isListening := True\<rparr>)"

definition micDisabled :: "interview_state \<Rightarrow> bool" where
  "micDisabled s = (speaking s \<noteq> None \<or> status s = Thinking)"

definition handleFinishInterview :: "interview_state \<Rightarrow> interview_state" where
  "handleFinishInterview s = setPage Results (setStatus Finished s)"

definition finishDisabled :: "interview_state \<Rightarrow> bool" where
  "finishDisabled s = (length (transcript s) < 2)"

text \<open>The callback given to \<^verbatim>\<open>speak\<close> runs when playback ends.\<close>

definition speechEnded :: "interview_state \<Rightarrow> interview_state" where
  "speechEnded s =
     (case speaking s of
        None \<Rightarrow> s
      | Some SetStatusIdle \<Rightarrow> setStatus Idle (s\<lparr>speaking := None\<rparr>)
      | Some SetPageResults \<Rightarrow> setPage Results (s\<lparr>speaking := None\<rparr>))"

text \<open>
  \<^verbatim>\<open>InterviewPage\<close> mounts on the context with \<^verbatim>\<open>status\<close> \<open>Thinking\<close>; the effects run
  after the first render. Later they run again when one of their dependencies changes:
  the opening effect then finds a transcript that is not empty, and the reply effect is
  applied where the transcript or the status changes (\<open>step\<close> below). Modelled from the
  spec: the functions that \<^verbatim>\<open>useSpeech\<close> returns are taken to keep their identity from
  one render to the next, so that \<^verbatim>\<open>getNextAiMessage\<close> is not a changing dependency.
\<close>

definition mountInterviewPage :: "'a app_context_scheme \<Rightarrow> interview_state" where
  "mountInterviewPage c =
     replyEffect (openingEffect
       \<lparr>page = page c, user = user c, interviewTypes = interviewTypes c,
        transcript = transcript c, evaluation = evaluation c, roadmap = roadmap c,
        effects = effects c,
        status = Thinking, currentAiResponse = [], isListening = False,
        speaking = None, inFlight = []\<rparr>)"

text \<open>
  What can happen in a visit. A turn in flight finishes (the provider decides how) and
  playback ends: nothing cancels either, so both happen whatever page is shown by then.
  While the interview page is shown, the microphone button is clicked when it is not
  disabled; the recognizer stops by itself; the recognizer delivers a final text, which it
  does only while listening (modelled from the spec: the source "yields finalized utterance
  text"); the Finish button is clicked when it is not disabled.
\<close>

datatype action =
    TurnFinishes string
  | PlaybackEnds
  | MicClick
  | RecognitionStops
  | FinalSpeech string "string option"
  | FinishInterview

inductive step :: "interview_state \<Rightarrow> action \<Rightarrow> interview_state \<Rightarrow> bool" where
  turn:
    "message \<in> set (inFlight s) \<Longrightarrow>
     step s (TurnFinishes message)
       (getNextAiMessage streamNextQuestion message (s\<lparr>inFlight := remove1 message (inFlight s)\<rparr>))"
| playback:
    "speaking s \<noteq> None \<Longrightarrow> step s PlaybackEnds (speechEnded s)"
| mic:
    "page s = Interview \<Longrightarrow> \<not> micDisabled s \<Longrightarrow> step s MicClick (handleMicClick s)"
| stops:
    "page s = Interview \<Longrightarrow> isListening s \<Longrightarrow>
     step s RecognitionStops (s\<lparr>isListening := False\<rparr>)"
| speech:
    "page s = Interview \<Longrightarrow> isListening s \<Longrightarrow>
     step s (FinalSpeech t img) (replyEffect (handleUserSpeech t img s))"
| finish:
    "page s = Interview \<Longrightarrow> \<not> finishDisabled s \<Longrightarrow>
     step s FinishInterview (handleFinishInterview s)"

text \<open>
  The states of one visit of the interview page, entered with an empty transcript, and of
  what the visit leaves running after the page is left.
\<close>

inductive reachable :: "interview_state \<Rightarrow> bool" where
  enter: "transcript (c :: app_context) = [] \<Longrightarrow> reachable (mountInterviewPage c)"
| after: "reachable s \<Longrightarrow> step s a s' \<Longrightarrow> reachable s'"

text \<open>
  A full exchange: the transcript opens with an interviewer utterance and a candidate
  utterance follows.
\<close>

definition full_exchange :: "TranscriptMessage list \<Rightarrow> bool" where
  "full_exchange ms =
     (case ms of
        [] \<Rightarrow> False
      | m # rest \<Rightarrow> msg_speaker m = Ai \<and> list_ex (\<lambda>r. msg_speaker r = User) rest)"

section \<open>Decimal rendering of numbers in template literals\<close>

definition digit_char :: "nat \<Rightarrow> char" where
  "digit_char d = ''0123456789'' ! d"

function String_of_nat :: "nat \<Rightarrow> string" where
  "String_of_nat n =
     (if n < 10 then [digit_char n] else String_of_nat (n div 10) @ [digit_char (n mod 10)])"
  by pat_completeness auto
termination
  by (relation "measure (\<lambda>n. n)") auto

declare String_of_nat.simps [simp del]

definition String_of_int :: "int \<Rightarrow> string" where
  "String_of_int i = (if i < 0 then CHR ''-'' # String_of_nat (nat (- i)) else String_of_nat (nat i))"

section \<open>AppContext: setRoadmap and toggleTodo\<close>

text \<open>
  \<^verbatim>\<open>setRoadmap\<close> maps over the drafts with their index; \<^verbatim>\<open>Date.now()\<close> is read once per
  item, so the clock is a parameter: \<open>now index\<close> is the reading taken for that item.
\<close>

definition todo_id :: "nat \<Rightarrow> int \<Rightarrow> string" where
  "todo_id index ms = ''todo-'' @ String_of_nat index @ ''-'' @ String_of_int ms"

definition with_id :: "(nat \<Rightarrow> int) \<Rightarrow> nat \<times> RoadmapDraft \<Rightarrow> RoadmapItem" where
  "with_id now p =
     (case p of (index, item) \<Rightarrow>
        RoadmapDraft.extend item
          (RoadmapItem.fields (todo_id index (now index)) False))"

definition roadmapWithIds :: "(nat \<Rightarrow> int) \<Rightarrow> RoadmapDraft list \<Rightarrow> RoadmapItem list" where
  "roadmapWithIds now newRoadmap = map (with_id now) (enumerate 0 newRoadmap)"

definition toggleTodo :: "string \<Rightarrow> RoadmapItem list \<Rightarrow> RoadmapItem list" where
  "toggleTodo ident prev =
     map (\<lambda>item. if item_id item = ident then item\<lparr>completed := \<not> completed item\<rparr> else item) prev"

section \<open>ResultsPage.tsx: the results pipeline\<close>

record results_state = app_context +
  isLoading :: bool
  error :: "string option"
  loadingMessage :: string

definition setIsLoading :: "bool \<Rightarrow> results_state \<Rightarrow> results_state" where
  "setIsLoading b s = s\<lparr>isLoading := b\<rparr>"

definition setError :: "string option \<Rightarrow> results_state \<Rightarrow> results_state" where
  "setError e s = s\<lparr>error := e\<rparr>"

definition setLoadingMessage :: "string \<Rightarrow> results_state \<Rightarrow> results_state" where
  "setLoadingMessage m s = s\<lparr>loadingMessage := m\<rparr>"

definition setEvaluation :: "Evaluation option \<Rightarrow> results_state \<Rightarrow> results_state" where
  "setEvaluation e s = s\<lparr>evaluation := e\<rparr>"

definition setRoadmap :: "(nat \<Rightarrow> int) \<Rightarrow> RoadmapDraft list \<Rightarrow> results_state \<Rightarrow> results_state" where
  "setRoadmap now newRoadmap s = s\<lparr>roadmap := roadmapWithIds now newRoadmap\<rparr>"

definition called :: "effect \<Rightarrow> results_state \<Rightarrow> results_state" where
  "called e s = s\<lparr>effects := effects s @ [e]\<rparr>"

definition noDataMessage :: string where
  "noDataMessage = ''No interview data found. Please start a new interview.''"

definition analyzingMessage :: string where
  "analyzingMessage = ''Analyzing your interview performance...''"

definition creatingMessage :: string where
  "creatingMessage = ''Creating your personalized learning roadmap...''"

definition failureMessage :: string where
  "failureMessage = ''I'm sorry, I encountered an issue while generating your results. This can happen due to a temporary connection problem. Please try starting a new interview.''"

definition retryingMessage :: "nat \<Rightarrow> string" where
  "retryingMessage delay =
     ''There was a temporary issue. Retrying in '' @ String_of_nat (delay div 1000) @ '' seconds...''"

text \<open>
  The body of the \<^verbatim>\<open>try\<close> block of \<^verbatim>\<open>fetchResults\<close>. The provider is a parameter:
  \<open>generateEvaluation transcript goal n\<close> and \<open>generateRoadmap level goal n\<close> are what the
  calls made in pass \<open>n\<close> of the loop deliver, \<open>None\<close> when the call throws. The result
  is \<open>True\<close> when the block reaches its \<^verbatim>\<open>return\<close>, \<open>False\<close> when it throws.
\<close>

definition fetchResults_try ::
  "(TranscriptMessage list \<Rightarrow> string \<Rightarrow> nat \<Rightarrow> Evaluation option) \<Rightarrow>
   (level \<Rightarrow> string \<Rightarrow> nat \<Rightarrow> RoadmapDraft list option) \<Rightarrow>
   (nat \<Rightarrow> int) \<Rightarrow> User \<Rightarrow> nat \<Rightarrow> results_state \<Rightarrow> bool \<times> results_state" where
  "fetchResults_try generateEvaluation generateRoadmap now u attempt s =
     (let s1 = called (GenerateEvaluation (transcript s) (goal u))
                 (setLoadingMessage analyzingMessage (setError None (setIsLoading True s)))
      in case generateEvaluation (transcript s) (goal u) attempt of
           None \<Rightarrow> (False, s1)
         | Some evalResult \<Rightarrow>
             (let s2 = called (GenerateRoadmap (level evalResult) (goal u))
                         (setLoadingMessage creatingMessage (setEvaluation (Some evalResult) s1))
              in case generateRoadmap (level evalResult) (goal u) attempt of
                   None \<Rightarrow> (False, s2)
                 | Some roadmapResult \<Rightarrow>
                     (True, setIsLoading False (setRoadmap now roadmapResult s2))))"

definition results_exhausted :: "results_state \<Rightarrow> results_state" where
  "results_exhausted s = setIsLoading False (setError (Some failureMessage) s)"

definition results_retry :: "nat \<Rightarrow> results_state \<Rightarrow> results_state" where
  "results_retry attempt s =
     called (Timeout (2 ^ attempt * 1000))
       (setLoadingMessage (retryingMessage (2 ^ attempt * 1000)) s)"

function fetchResults_from ::
  "(TranscriptMessage list \<Rightarrow> string \<Rightarrow> nat \<Rightarrow> Evaluation option) \<Rightarrow>
   (level \<Rightarrow> string \<Rightarrow> nat \<Rightarrow> RoadmapDraft list option) \<Rightarrow>
   (nat \<Rightarrow> int) \<Rightarrow> User \<Rightarrow> nat \<Rightarrow> results_state \<Rightarrow> results_state" where
  "fetchResults_from generateEvaluation generateRoadmap now u attempt s =
     (if attempt \<le> maxRetries then
        (case fetchResults_try generateEvaluation generateRoadmap now u attempt s of
           (True, s1) \<Rightarrow> s1
         | (False, s1) \<Rightarrow>
             (if attempt + 1 > maxRetries then
                fetchResults_from generateEvaluation generateRoadmap now u (attempt + 1)
                  (results_exhausted s1)
              else
                fetchResults_from generateEvaluation generateRoadmap now u (attempt + 1)
                  (results_retry (attempt + 1) s1)))
      else s)"
  by pat_completeness auto
termination
  by (relation "measure (\<lambda>(e, r, n, u, attempt, s). Suc maxRetries - attempt)") auto

declare fetchResults_from.simps [simp del]

definition fetchResults ::
  "(TranscriptMessage list \<Rightarrow> string \<Rightarrow> nat \<Rightarrow> Evaluation option) \<Rightarrow>
   (level \<Rightarrow> string \<Rightarrow> nat \<Rightarrow> RoadmapDraft list option) \<Rightarrow>
   (nat \<Rightarrow> int) \<Rightarrow> results_state \<Rightarrow> results_state" where
  "fetchResults generateEvaluation generateRoadmap now s =
     (case user s of
        None \<Rightarrow> setIsLoading False (setError (Some noDataMessage) s)
      | Some u \<Rightarrow>
          if transcript s = [] then setIsLoading False (setError (Some noDataMessage) s)
          else fetchResults_from generateEvaluation generateRoadmap now u 0 s)"

text \<open>The body of the \<^verbatim>\<open>useEffect\<close> of \<^verbatim>\<open>ResultsPage\<close>.\<close>

definition resultsEffect ::
  "(TranscriptMessage list \<Rightarrow> string \<Rightarrow> nat \<Rightarrow> Evaluation option) \<Rightarrow>
   (level \<Rightarrow> string \<Rightarrow> nat \<Rightarrow> RoadmapDraft list option) \<Rightarrow>
   (nat \<Rightarrow> int) \<Rightarrow> results_state \<Rightarrow> results_state" where
  "resultsEffect generateEvaluation generateRoadmap now s =
     (if evaluation s = None then fetchResults generateEvaluation generateRoadmap now s
      else setIsLoading False s)"

text \<open>What \<^verbatim>\<open>ResultsPage\<close> renders: the three early returns, then the results.\<close>

datatype view =
    LoadingSpinner string
  | ErrorCard string
  | Nothing
  | ResultsView Evaluation "RoadmapItem list"

definition render :: "results_state \<Rightarrow> view" where
  "render s =
     (if isLoading s then LoadingSpinner (loadingMessage s)
      else case error s of
             Some e \<Rightarrow> ErrorCard e
           | None \<Rightarrow> (case evaluation s of None \<Rightarrow> Nothing | Some ev \<Rightarrow> ResultsView ev (roadmap s)))"

text \<open>The state in which \<^verbatim>\<open>ResultsPage\<close> mounts on a context.\<close>

definition mountResultsPage :: "'a app_context_scheme \<Rightarrow> results_state" where
  "mountResultsPage c =
     \<lparr>page = page c, user = user c, interviewTypes = interviewTypes c,
      transcript = transcript c, evaluation = evaluation c, roadmap = roadmap c,
      effects = effects c,
      isLoading = True, error = None, loadingMessage = analyzingMessage\<rparr>"

section \<open>geminiService.ts: the evaluation prompt\<close>

text \<open>\<^verbatim>\<open>String.prototype.split\<close> on a one-character separator.\<close>

fun split_on :: "char \<Rightarrow> string \<Rightarrow> string list" where
  "split_on c [] = [[]]"
| "split_on c (x # xs) =
     (if x = c then [] # split_on c xs
      else (case split_on c xs of [] \<Rightarrow> [[x]] | p # ps \<Rightarrow> (x # p) # ps))"

text \<open>
  \<^verbatim>\<open>msg.image.split(',')[1]\<close>, with both truthiness tests of the source: the image is
  present and not empty, and the second component exists and is not empty.
\<close>

definition base64Data :: "TranscriptMessage \<Rightarrow> string option" where
  "base64Data msg =
     (case msg_image msg of
        None \<Rightarrow> None
      | Some img \<Rightarrow>
          if img = [] then None
          else (case split_on CHR '','' img of
                  _ # b # _ \<Rightarrow> if b = [] then None else Some b
                | _ \<Rightarrow> None))"

definition imageNote :: string where
  "imageNote = ''[Reference image for the user's statement above]\<newline>''"

text \<open>One round of the \<^verbatim>\<open>forEach\<close> of \<^verbatim>\<open>generateEvaluation\<close> on \<open>(transcriptText, imageParts)\<close>.\<close>

definition appendMessage :: "string \<times> string list \<Rightarrow> TranscriptMessage \<Rightarrow> string \<times> string list" where
  "appendMessage acc msg =
     (case acc of (transcriptText, imageParts) \<Rightarrow>
        (let transcriptText1 =
               transcriptText @ speaker_name (msg_speaker msg) @ '': '' @ msg_text msg @ ''\<newline>''
         in if msg_speaker msg = User then
              (case base64Data msg of
                 Some b \<Rightarrow> (transcriptText1 @ imageNote, imageParts @ [b])
               | None \<Rightarrow> (transcriptText1, imageParts))
            else (transcriptText1, imageParts)))"

definition serializeTranscript :: "TranscriptMessage list \<Rightarrow> string \<times> string list" where
  "serializeTranscript ms = foldl appendMessage ([], []) ms"

definition evaluationPrompt :: "TranscriptMessage list \<Rightarrow> string \<Rightarrow> string" where
  "evaluationPrompt ms goalText =
     ''Based on the following interview transcript for a candidate aspiring to be a '' @
     [CHR 0x27] @ goalText @ [CHR 0x27] @
     '', and the series of images captured while they were speaking, please evaluate their performance.\<newline>'' @
     ''        \<newline>'' @
     ''        Transcript:\<newline>'' @
     ''        '' @ fst (serializeTranscript ms) @ ''\<newline>'' @
     ''        \<newline>'' @
     ''        Provide a detailed evaluation based on the candidate's answers.\<newline>'' @
     ''        - Assess their technical knowledge and problem-solving skills from their verbal answers.\<newline>'' @
     ''        - Assess their confidence based on both their answers and their facial expressions/body language in the images.\<newline>'' @
     ''        - Analyze their communication style, including clarity, conciseness, use of filler words, and non-verbal cues from the images (e.g., eye contact, engagement).\<newline>'' @
     ''        - Finally, assign a level: 'Beginner', 'Intermediate', or 'Advanced'.''"

section \<open>geminiService.ts: scoreResume in both services\<close>

text \<open>
  The values \<^verbatim>\<open>JSON.parse\<close> can put into the \<^verbatim>\<open>score\<close> field; \<open>JUndefined\<close> is the
  reading of an absent field. \<open>JNumber n\<close> is the number whose value is the integer
  \<open>n\<close> (the schema asks for an integer). An object is the list of its own members.
\<close>

datatype json =
    JNumber int
  | JString string
  | JBool bool
  | JNull
  | JUndefined
  | JArray "json list"
  | JObject "(string \<times> json) list"

record ResumeMatch =
  score :: json
  strengths :: string
  weaknesses :: string

text \<open>
  What a computation on such values comes to: a value, a \<^verbatim>\<open>TypeError\<close> that is thrown, or
  \<open>Undetermined\<close> where the result depends on what is not represented here: the rounding
  of an integer beyond \<open>2^53\<close> to a double, and the characters beyond ASCII (among them
  the white space that \<^verbatim>\<open>parseInt\<close> trims besides the six ASCII characters).
\<close>

datatype 'a outcome = Value 'a | TypeError | Undetermined

fun and_then :: "'a outcome \<Rightarrow> ('a \<Rightarrow> 'b outcome) \<Rightarrow> 'b outcome" where
  "and_then (Value x) f = f x"
| "and_then TypeError f = TypeError"
| "and_then Undetermined f = Undetermined"

definition exactDouble :: "int \<Rightarrow> bool" where
  "exactDouble n = (\<bar>n\<bar> \<le> 2 ^ 53)"

text \<open>
  \<^verbatim>\<open>ToString\<close>, which \<^verbatim>\<open>parseInt\<close> applies to its argument first. An object parsed from
  JSON has no callable member: with an own member \<^verbatim>\<open>toString\<close> neither that member nor the
  inherited \<^verbatim>\<open>valueOf\<close> yields a primitive, and \<^verbatim>\<open>ToString\<close> throws; otherwise the inherited
  \<^verbatim>\<open>toString\<close> answers. An array joins the strings of its elements with commas, null
  elements as empty strings.
\<close>

fun ToString :: "json \<Rightarrow> string outcome" and join_elements :: "json list \<Rightarrow> string outcome" where
  "ToString (JNumber n) = (if exactDouble n then Value (String_of_int n) else Undetermined)"
| "ToString (JString s) = Value s"
| "ToString (JBool b) = Value (if b then ''true'' else ''false'')"
| "ToString JNull = Value ''null''"
| "ToString JUndefined = Value ''undefined''"
| "ToString (JArray xs) = join_elements xs"
| "ToString (JObject kvs) =
     (if ''toString'' \<in> set (map fst kvs) then TypeError else Value ''[object Object]'')"
| "join_elements [] = Value []"
| "join_elements (x # xs) =
     and_then (if x = JNull \<or> x = JUndefined then Value [] else ToString x)
       (\<lambda>first. if xs = [] then Value first
                else and_then (join_elements xs) (\<lambda>others. Value (first @ '','' @ others)))"

definition isWhiteSpace :: "char \<Rightarrow> bool" where
  "isWhiteSpace c = (c \<in> set [CHR 0x09, CHR 0x0A, CHR 0x0B, CHR 0x0C, CHR 0x0D, CHR 0x20])"

definition isAscii :: "char \<Rightarrow> bool" where
  "isAscii c = ((of_char c :: nat) < 128)"

definition isDigit :: "char \<Rightarrow> bool" where
  "isDigit c = (c \<in> set ''0123456789'')"

definition digitValue :: "char \<Rightarrow> int" where
  "digitValue c = int (of_char c) - 48"

datatype number = NaN | Integer int

text \<open>
  \<^verbatim>\<open>parseInt(v, 10)\<close> on a string: leading white space is skipped, one sign is read, then
  the longest run of decimal digits; \<^verbatim>\<open>NaN\<close> is returned when there is no digit, else the
  double nearest to the signed integer that the digits denote. Where the ASCII white space
  ends at a character beyond ASCII, and where the integer is beyond \<open>2^53\<close>, the result is
  \<open>Undetermined\<close>.
\<close>

definition parseInt_string :: "string \<Rightarrow> number outcome" where
  "parseInt_string inputString =
     (let S = dropWhile isWhiteSpace inputString;
          sign = (case S of c # _ \<Rightarrow> if c = CHR ''-'' then - 1 else 1 | [] \<Rightarrow> (1::int));
          S1 = (case S of c # r \<Rightarrow> if c = CHR ''-'' \<or> c = CHR ''+'' then r else S | [] \<Rightarrow> S);
          Z = takeWhile isDigit S1;
          mathInt = foldl (\<lambda>a c. 10 * a + digitValue c) 0 Z
      in if (case S of c # _ \<Rightarrow> \<not> isAscii c | [] \<Rightarrow> False) then Undetermined
         else if Z = [] then Value NaN
         else if exactDouble (sign * mathInt) then Value (Integer (sign * mathInt))
         else Undetermined)"

definition parseInt :: "json \<Rightarrow> number outcome" where
  "parseInt v = and_then (ToString v) parseInt_string"

text \<open>\<^verbatim>\<open>x || 0\<close> on a number: \<^verbatim>\<open>NaN\<close> and zero are falsy.\<close>

definition or_zero :: "number \<Rightarrow> int" where
  "or_zero x = (case x of NaN \<Rightarrow> 0 | Integer n \<Rightarrow> if n = 0 then 0 else n)"

text \<open>
  Both functions are given the object that \<^verbatim>\<open>JSON.parse\<close> made of the provider's reply.
\<close>

definition GeminiAIService_scoreResume :: "ResumeMatch \<Rightarrow> ResumeMatch outcome" where
  "GeminiAIService_scoreResume result =
     (case score result of
        JNumber n \<Rightarrow> Value result
      | _ \<Rightarrow>
          and_then (parseInt (score result))
            (\<lambda>parsed. Value (result\<lparr>score := JNumber (or_zero parsed)\<rparr>)))"

definition OpenAIAIService_scoreResume :: "ResumeMatch \<Rightarrow> ResumeMatch outcome" where
  "OpenAIAIService_scoreResume result = Value result"

fun is_number :: "json \<Rightarrow> bool" where
  "is_number (JNumber n) = True"
| "is_number v = False"

text \<open>The score is a number between 0 and 100.\<close>

definition score_in_range :: "ResumeMatch \<Rightarrow> bool" where
  "score_in_range r = (case score r of JNumber n \<Rightarrow> 0 \<le> n \<and> n \<le> 100 | _ \<Rightarrow> False)"

section \<open>Notions used to state the properties\<close>

text \<open>The texts surfaced while a stream is read: the accumulation after each fragment.\<close>

fun partials :: "string \<Rightarrow> string list \<Rightarrow> string list" where
  "partials acc [] = []"
| "partials acc (c # cs) = (acc @ c) # partials (acc @ c) cs"

definition streamed :: "generator \<Rightarrow> interview_state \<Rightarrow> interview_state" where
  "streamed g s = snd (processStream g s)"

text \<open>The provider calls and the awaited delays among the effects, in order.\<close>

fun is_attempt_or_delay :: "effect \<Rightarrow> bool" where
  "is_attempt_or_delay (StreamNextQuestion m) = True"
| "is_attempt_or_delay (Timeout ms) = True"
| "is_attempt_or_delay (GenerateEvaluation ms g) = True"
| "is_attempt_or_delay (GenerateRoadmap l g) = True"
| "is_attempt_or_delay (SetCurrentAiResponse t) = False"
| "is_attempt_or_delay (AddMessageToTranscript m) = False"
| "is_attempt_or_delay (Speak t k) = False"

definition attempts_and_delays :: "effect list \<Rightarrow> effect list" where
  "attempts_and_delays es = filter is_attempt_or_delay es"

text \<open>
  One pass of the loop of \<^verbatim>\<open>fetchResults\<close>: whether both calls deliver, and the calls
  it makes (the roadmap is asked for only when the evaluation was delivered).
\<close>

definition pass_ok ::
  "(TranscriptMessage list \<Rightarrow> string \<Rightarrow> nat \<Rightarrow> Evaluation option) \<Rightarrow>
   (level \<Rightarrow> string \<Rightarrow> nat \<Rightarrow> RoadmapDraft list option) \<Rightarrow>
   TranscriptMessage list \<Rightarrow> string \<Rightarrow> nat \<Rightarrow> bool" where
  "pass_ok generateEvaluation generateRoadmap ms g n =
     (case generateEvaluation ms g n of
        None \<Rightarrow> False
      | Some ev \<Rightarrow> generateRoadmap (level ev) g n \<noteq> None)"

definition pass_calls ::
  "(TranscriptMessage list \<Rightarrow> string \<Rightarrow> nat \<Rightarrow> Evaluation option) \<Rightarrow>
   TranscriptMessage list \<Rightarrow> string \<Rightarrow> nat \<Rightarrow> effect list" where
  "pass_calls generateEvaluation ms g n =
     (case generateEvaluation ms g n of
        None \<Rightarrow> [GenerateEvaluation ms g]
      | Some ev \<Rightarrow> [GenerateEvaluation ms g, GenerateRoadmap (level ev) g])"

text \<open>
  The evaluation the context holds after three passes: the one delivered by the last pass
  whose evaluation call succeeded, else the one it held before.
\<close>

definition last_evaluation ::
  "(TranscriptMessage list \<Rightarrow> string \<Rightarrow> nat \<Rightarrow> Evaluation option) \<Rightarrow>
   TranscriptMessage list \<Rightarrow> string \<Rightarrow> Evaluation option \<Rightarrow> Evaluation option" where
  "last_evaluation generateEvaluation ms g before =
     (case generateEvaluation ms g 2 of
        Some ev \<Rightarrow> Some ev
      | None \<Rightarrow>
          (case generateEvaluation ms g 1 of
             Some ev \<Rightarrow> Some ev
           | None \<Rightarrow>
               (case generateEvaluation ms g 0 of
                  Some ev \<Rightarrow> Some ev
                | None \<Rightarrow> before)))"

fun is_stream_call :: "effect \<Rightarrow> bool" where
  "is_stream_call (StreamNextQuestion m) = True"
| "is_stream_call e = False"

fun is_evaluation_call :: "effect \<Rightarrow> bool" where
  "is_evaluation_call (GenerateEvaluation ms g) = True"
| "is_evaluation_call e = False"

fun is_roadmap_call :: "effect \<Rightarrow> bool" where
  "is_roadmap_call (GenerateRoadmap l g) = True"
| "is_roadmap_call e = False"

text \<open>
  The context is shared: a page, or what a page has left running, finds the context as
  the others have left it. \<open>withContext c s\<close> is the state \<open>s\<close> with the context of \<open>c\<close>.
\<close>

definition withContext :: "'a app_context_scheme \<Rightarrow> 'b app_context_scheme \<Rightarrow> 'b app_context_scheme" where
  "withContext c s =
     s\<lparr>page := page c, user := user c, interviewTypes := interviewTypes c,
       transcript := transcript c, evaluation := evaluation c, roadmap := roadmap c,
       effects := effects c\<rparr>"

text \<open>Two interview states that differ at most in the text on display and the effects.\<close>

definition same_session :: "interview_state \<Rightarrow> interview_state \<Rightarrow> bool" where
  "same_session s s1 =
     (transcript s1 = transcript s \<and> inFlight s1 = inFlight s \<and>
      isListening s1 = isListening s \<and> status s1 = status s \<and> page s1 = page s \<and>
      speaking s1 = speaking s)"

section \<open>Concrete sessions and providers\<close>

definition sample_user :: User where
  "sample_user = \<lparr>name = ''Ada'', goal = ''Data Analyst''\<rparr>"

definition sample_transcript :: "TranscriptMessage list" where
  "sample_transcript =
     [\<lparr>msg_speaker = Ai, msg_text = ''Tell me about yourself.'', msg_image = None\<rparr>,
      \<lparr>msg_speaker = User, msg_text = ''I analyse data.'', msg_image = None\<rparr>]"

definition sample_evaluation :: Evaluation where
  "sample_evaluation =
     \<lparr>summary = ''Good'', knowledge = ''Solid'', skills = ''Fair'', confidence = ''High'',
      communication = ''Clear'', level = Intermediate\<rparr>"

definition sample_draft :: RoadmapDraft where
  "sample_draft =
     \<lparr>title = ''SQL'', description = ''Joins'', keyConcepts = [''join''], project = ''Report'',
      resources = [\<lparr>res_type = docs, res_title = ''Manual'', res_url = ''https://example.org''\<rparr>]\<rparr>"

definition sample_results :: results_state where
  "sample_results =
     \<lparr>page = Results, user = Some sample_user, interviewTypes = [technical],
      transcript = sample_transcript, evaluation = None, roadmap = [], effects = [],
      isLoading = True, error = None, loadingMessage = analyzingMessage\<rparr>"

definition sample_interview :: interview_state where
  "sample_interview =
     \<lparr>page = Interview, user = Some sample_user, interviewTypes = [technical],
      transcript = [], evaluation = None, roadmap = [], effects = [],
      status = Thinking, currentAiResponse = [], isListening = False,
      speaking = None, inFlight = []\<rparr>"

definition sample_context :: app_context where
  "sample_context =
     \<lparr>page = Interview, user = Some sample_user, interviewTypes = [technical],
      transcript = [], evaluation = None, roadmap = [], effects = []\<rparr>"

text \<open>A stream that delivers a question at once.\<close>

definition stream_at_once :: "string \<Rightarrow> nat \<Rightarrow> generator" where
  "stream_at_once m n = Yield ''Tell me about yourself.'' Return"

text \<open>
  A visit: the opening question has been streamed; then playback ends, the microphone is
  switched on and the candidate's reply arrives.
\<close>

definition after_opening :: interview_state where
  "after_opening =
     getNextAiMessage stream_at_once ''Start the interview.''
       ((mountInterviewPage sample_context)
          \<lparr>inFlight := remove1 ''Start the interview.'' (inFlight (mountInterviewPage sample_context))\<rparr>)"

definition after_reply :: interview_state where
  "after_reply =
     replyEffect (handleUserSpeech ''I analyse data.'' None
       (handleMicClick (speechEnded after_opening)))"

definition sample_clock :: "nat \<Rightarrow> int" where
  "sample_clock index = 1700000000000 + int index"

definition roadmap_delivered :: "level \<Rightarrow> string \<Rightarrow> nat \<Rightarrow> RoadmapDraft list option" where
  "roadmap_delivered l g n = Some [sample_draft]"


text \<open>The utterance appended when a turn has used up its attempts.\<close>

definition closingUtterance :: TranscriptMessage where
  "closingUtterance = \<lparr>msg_speaker = Ai, msg_text = errorMessage, msg_image = None\<rparr>"

text \<open>
  What holds of every state of a visit: before the first utterance the page is thinking,
  not listening and not speaking; the first utterance is the interviewer's; and as long
  as only the interviewer has spoken, at most one utterance or turn in flight exists.
\<close>

definition orderly :: "interview_state \<Rightarrow> bool" where
  "orderly s =
     ((transcript s = [] \<longrightarrow> status s = Thinking \<and> \<not> isListening s \<and> speaking s = None) \<and>
      (transcript s \<noteq> [] \<longrightarrow> msg_speaker (hd (transcript s)) = Ai) \<and>
      ((\<forall>m \<in> set (transcript s). msg_speaker m = Ai) \<longrightarrow>
         length (transcript s) + length (inFlight s) \<le> 1))"

text \<open>A roadmap after its creation and any number of clicks on its items.\<close>

definition toggled :: "string list \<Rightarrow> RoadmapItem list \<Rightarrow> RoadmapItem list" where
  "toggled clicks created = foldl (\<lambda>prev ident. toggleTodo ident prev) created clicks"

text \<open>Replies to the resume prompt whose score is a string, or an object.\<close>

definition reply_with_member_toString :: ResumeMatch where
  "reply_with_member_toString =
     \<lparr>score = JObject [(''toString'', JString ''x'')], strengths = ''Python, SQL'',
      weaknesses = ''No cloud experience''\<rparr>"

definition reply_with_score :: "string \<Rightarrow> ResumeMatch" where
  "reply_with_score v =
     \<lparr>score = JString v, strengths = ''Python, SQL'', weaknesses = ''No cloud experience''\<rparr>"

text \<open>Providers: an evaluation that is always delivered, roadmaps that fail once or always.\<close>

definition evaluation_delivered :: "TranscriptMessage list \<Rightarrow> string \<Rightarrow> nat \<Rightarrow> Evaluation option" where
  "evaluation_delivered ms g n = Some sample_evaluation"

definition roadmap_fails_once :: "level \<Rightarrow> string \<Rightarrow> nat \<Rightarrow> RoadmapDraft list option" where
  "roadmap_fails_once l g n = (if n = 0 then None else Some [sample_draft])"

definition roadmap_fails_always :: "level \<Rightarrow> string \<Rightarrow> nat \<Rightarrow> RoadmapDraft list option" where
  "roadmap_fails_always l g n = None"

text \<open>Streams: two attempts that throw after a fragment, then a reply in two fragments.\<close>

definition stream_third_time :: "string \<Rightarrow> nat \<Rightarrow> generator" where
  "stream_third_time m n =
     (if n < 2 then Yield ''Tell'' Raise else Yield ''Tell me '' (Yield ''more.'' Return))"

definition stream_never :: "string \<Rightarrow> nat \<Rightarrow> generator" where
  "stream_never m n = Raise"

text \<open>
  The visit goes on: while the turn for the candidate's reply is still in flight the
  candidate clicks Finish; the results page runs its pipeline, which the provider serves;
  then the turn in flight uses up its attempts; the effect of the results page runs again
  because the transcript has changed.
\<close>

definition finished_early :: interview_state where
  "finished_early = handleFinishInterview after_reply"

definition evaluated_early :: results_state where
  "evaluated_early =
     resultsEffect evaluation_delivered roadmap_delivered sample_clock
       (mountResultsPage finished_early)"

definition closing_late :: interview_state where
  "closing_late =
     getNextAiMessage stream_never ''I analyse data.''
       (withContext evaluated_early
          (finished_early\<lparr>inFlight := remove1 ''I analyse data.'' (inFlight finished_early)\<rparr>))"

definition effect_rerun :: results_state where
  "effect_rerun =
     resultsEffect evaluation_delivered roadmap_delivered sample_clock
       (withContext closing_late evaluated_early)"

section \<open>Reading a stream\<close>

lemma partials_take:
  "partials acc fs = map (\<lambda>k. acc @ concat (take k fs)) [1..<Suc (length fs)]"
proof (induction fs arbitrary: acc)
  case Nil
  show ?case by simp
next
  case (Cons c cs)
  have "[1..<Suc (length (c # cs))] = 1 # [Suc 1..<Suc (Suc (length cs))]"
    by (subst upt_rec) simp
  also have "[Suc 1..<Suc (Suc (length cs))] = map Suc [1..<Suc (length cs)]"
    by (simp only: map_Suc_upt)
  finally have "[1..<Suc (length (c # cs))] = 1 # map Suc [1..<Suc (length cs)]" .
  then show ?case
    by (simp add: Cons.IH comp_def)
qed

lemma processStream_from_eq:
  "processStream_from acc g s =
     (if completes g then Some (acc @ concat (fragments g)) else None,
      s\<lparr>currentAiResponse := last (currentAiResponse s # partials acc (fragments g)),
        effects := effects s @ map SetCurrentAiResponse (partials acc (fragments g))\<rparr>)"
  by (induction acc g s rule: processStream_from.induct)
     (simp_all add: setCurrentAiResponse_def)

lemma processStream_eq:
  "processStream g s =
     (if completes g then Some (concat (fragments g)) else None, streamed g s)"
  by (simp add: streamed_def processStream_def processStream_from_eq)

lemma streamed_eq:
  "streamed g s =
     s\<lparr>currentAiResponse := last (currentAiResponse s # partials [] (fragments g)),
       effects := effects s @ map SetCurrentAiResponse (partials [] (fragments g))\<rparr>"
  by (simp add: streamed_def processStream_def processStream_from_eq)

lemma effects_streamed:
  "effects (streamed g s) = effects s @ map SetCurrentAiResponse (partials [] (fragments g))"
  by (simp add: streamed_eq)

lemma transcript_streamed [simp]: "transcript (streamed g s) = transcript s"
  by (simp add: streamed_eq)

lemma transcript_called [simp]: "transcript (streamNextQuestion_called m s) = transcript s"
  by (simp add: streamNextQuestion_called_def)

lemma transcript_turn_retry [simp]: "transcript (turn_retry a s) = transcript s"
  by (simp add: turn_retry_def setTimeout_def setCurrentAiResponse_def)

lemma transcript_turn_succeeded:
  "transcript (turn_succeeded t s) =
     transcript s @ [\<lparr>msg_speaker = Ai, msg_text = t, msg_image = None\<rparr>]"
  by (simp add: turn_succeeded_def speak_def setStatus_def setCurrentAiResponse_def
      addMessageToTranscript_def)

lemma transcript_turn_exhausted:
  "transcript (turn_exhausted s) =
     transcript s @ [\<lparr>msg_speaker = Ai, msg_text = errorMessage, msg_image = None\<rparr>]"
  by (simp add: turn_exhausted_def speak_def setCurrentAiResponse_def addMessageToTranscript_def)

section \<open>One pass of the loop of getNextAiMessage\<close>

lemma loop_success:
  "attempt \<le> 2 \<Longrightarrow> completes (P m attempt) \<Longrightarrow>
   getNextAiMessage_from P m attempt s =
     turn_succeeded (concat (fragments (P m attempt)))
       (streamed (P m attempt) (streamNextQuestion_called m s))"
  by (subst getNextAiMessage_from.simps) (simp add: processStream_eq maxRetries_def)

lemma loop_retry:
  "attempt < 2 \<Longrightarrow> \<not> completes (P m attempt) \<Longrightarrow>
   getNextAiMessage_from P m attempt s =
     getNextAiMessage_from P m (Suc attempt)
       (turn_retry (Suc attempt) (streamed (P m attempt) (streamNextQuestion_called m s)))"
  by (subst getNextAiMessage_from.simps) (simp add: processStream_eq maxRetries_def)

lemma loop_exhausted:
  "\<not> completes (P m 2) \<Longrightarrow>
   getNextAiMessage_from P m 2 s =
     turn_exhausted (streamed (P m 2) (streamNextQuestion_called m s))"
  apply (subst getNextAiMessage_from.simps)
  apply (subst getNextAiMessage_from.simps)
  apply (simp add: processStream_eq maxRetries_def)
  done

lemma loop_first_success:
  "a \<le> k \<Longrightarrow> k \<le> 2 \<Longrightarrow> \<forall>j. a \<le> j \<and> j < k \<longrightarrow> \<not> completes (P m j) \<Longrightarrow>
   completes (P m k) \<Longrightarrow>
   transcript (getNextAiMessage_from P m a s) =
     transcript s @ [\<lparr>msg_speaker = Ai, msg_text = concat (fragments (P m k)), msg_image = None\<rparr>]"
proof (induction "k - a" arbitrary: a s)
  case 0
  then have "a = k" by simp
  with 0 show ?case
    by (simp add: loop_success transcript_turn_succeeded)
next
  case (Suc d)
  then have less: "a < k" and fails: "\<not> completes (P m a)"
    by auto
  from less Suc.prems have "a < 2" by simp
  then have "getNextAiMessage_from P m a s =
      getNextAiMessage_from P m (Suc a)
        (turn_retry (Suc a) (streamed (P m a) (streamNextQuestion_called m s)))"
    using fails by (rule loop_retry)
  moreover have "transcript (getNextAiMessage_from P m (Suc a)
        (turn_retry (Suc a) (streamed (P m a) (streamNextQuestion_called m s)))) =
      transcript (turn_retry (Suc a) (streamed (P m a) (streamNextQuestion_called m s))) @
        [\<lparr>msg_speaker = Ai, msg_text = concat (fragments (P m k)), msg_image = None\<rparr>]"
  proof (rule Suc.hyps(1))
    show "d = k - Suc a" using Suc.hyps(2) by simp
    show "Suc a \<le> k" using less by simp
    show "k \<le> 2" by (rule Suc.prems(2))
    show "\<forall>j. Suc a \<le> j \<and> j < k \<longrightarrow> \<not> completes (P m j)"
      using Suc.prems(3) by simp
    show "completes (P m k)" by (rule Suc.prems(4))
  qed
  ultimately show ?case by simp
qed

section \<open>C1: a streamed turn\<close>

text \<open>
  Claim C1. When the turn succeeds in attempt \<open>k\<close> (the earlier attempts threw, and
  \<open>k\<close> is within the retries), \<^verbatim>\<open>processStream\<close> returns the concatenation of the
  fragments the generator yielded, in the order of arrival; after the \<open>n\<close>-th fragment it
  hands the concatenation of the first \<open>n\<close> fragments to \<^verbatim>\<open>setCurrentAiResponse\<close>; and
  \<^verbatim>\<open>getNextAiMessage\<close> appends exactly one utterance to the transcript, spoken by \<open>Ai\<close>,
  whose text is that concatenation.
\<close>

theorem streamed_turn_accumulates_fragments:
  assumes "k \<le> maxRetries"
    and "\<forall>j<k. \<not> completes (streamNextQuestion message j)"
    and "completes (streamNextQuestion message k)"
  shows "fst (processStream (streamNextQuestion message k) s0) =
           Some (concat (fragments (streamNextQuestion message k))) \<and>
         effects (snd (processStream (streamNextQuestion message k) s0)) =
           effects s0 @
           map (\<lambda>n. SetCurrentAiResponse (concat (take n (fragments (streamNextQuestion message k)))))
             [1..<Suc (length (fragments (streamNextQuestion message k)))] \<and>
         transcript (getNextAiMessage streamNextQuestion message s) =
           transcript s @
           [\<lparr>msg_speaker = Ai,
             msg_text = concat (fragments (streamNextQuestion message k)),
             msg_image = None\<rparr>]"
proof (intro conjI)
  show "fst (processStream (streamNextQuestion message k) s0) =
      Some (concat (fragments (streamNextQuestion message k)))"
    using assms(3) by (simp add: processStream_eq)
  show "effects (snd (processStream (streamNextQuestion message k) s0)) =
      effects s0 @
      map (\<lambda>n. SetCurrentAiResponse (concat (take n (fragments (streamNextQuestion message k)))))
        [1..<Suc (length (fragments (streamNextQuestion message k)))]"
    by (simp add: processStream_eq effects_streamed partials_take comp_def)
  have "k \<le> 2" using assms(1) by (simp add: maxRetries_def)
  then show "transcript (getNextAiMessage streamNextQuestion message s) =
      transcript s @
      [\<lparr>msg_speaker = Ai,
        msg_text = concat (fragments (streamNextQuestion message k)),
        msg_image = None\<rparr>]"
    unfolding getNextAiMessage_def
    using assms(2,3) by (intro loop_first_success) simp_all
qed

theorem streamed_turn_accumulates_fragments_witness:
  "(2::nat) \<le> maxRetries \<and>
   \<not> completes (stream_third_time ''Start the interview.'' 0) \<and>
   \<not> completes (stream_third_time ''Start the interview.'' 1) \<and>
   completes (stream_third_time ''Start the interview.'' 2) \<and>
   fst (processStream (stream_third_time ''Start the interview.'' 2) sample_interview) =
     Some ''Tell me more.'' \<and>
   effects (snd (processStream (stream_third_time ''Start the interview.'' 2) sample_interview)) =
     [SetCurrentAiResponse ''Tell me '', SetCurrentAiResponse ''Tell me more.''] \<and>
   transcript (getNextAiMessage stream_third_time ''Start the interview.'' sample_interview) =
     [\<lparr>msg_speaker = Ai, msg_text = ''Tell me more.'', msg_image = None\<rparr>]"
proof -
  have k: "(2::nat) \<le> maxRetries"
    by (simp add: maxRetries_def)
  have c: "\<not> completes (stream_third_time ''Start the interview.'' 0)"
    "\<not> completes (stream_third_time ''Start the interview.'' 1)"
    "completes (stream_third_time ''Start the interview.'' 2)"
    by (simp_all add: stream_third_time_def)
  from c have before: "\<forall>j<2. \<not> completes (stream_third_time ''Start the interview.'' j)"
    by (simp add: stream_third_time_def)
  have f: "fragments (stream_third_time ''Start the interview.'' 2) = [''Tell me '', ''more.'']"
    by (simp add: stream_third_time_def)
  have e: "effects sample_interview = []" "transcript sample_interview = []"
    by (simp_all add: sample_interview_def)
  have n: "[1..<Suc (length [''Tell me '', ''more.''])] = [1, 2]"
    by (simp add: upt_rec)
  note th = streamed_turn_accumulates_fragments [where k = 2
      and streamNextQuestion = stream_third_time and message = "''Start the interview.''"
      and ?s0.0 = sample_interview and s = sample_interview, OF k before c(3)]
  show ?thesis
    using th k c unfolding f e n by simp
qed

section \<open>The calls and delays of a turn\<close>

lemma trace_append [simp]:
  "attempts_and_delays (xs @ ys) = attempts_and_delays xs @ attempts_and_delays ys"
  by (simp add: attempts_and_delays_def)

lemma trace_surfaced [simp]: "attempts_and_delays (map SetCurrentAiResponse ts) = []"
  by (induction ts) (simp_all add: attempts_and_delays_def)

lemma trace_streamed [simp]:
  "attempts_and_delays (effects (streamed g s)) = attempts_and_delays (effects s)"
  by (simp add: effects_streamed)

lemma trace_called [simp]:
  "attempts_and_delays (effects (streamNextQuestion_called m s)) =
     attempts_and_delays (effects s) @ [StreamNextQuestion m]"
  by (simp add: streamNextQuestion_called_def attempts_and_delays_def)

lemma trace_turn_retry [simp]:
  "attempts_and_delays (effects (turn_retry a s)) =
     attempts_and_delays (effects s) @ [Timeout (2 ^ a * 1000)]"
  by (simp add: turn_retry_def setTimeout_def setCurrentAiResponse_def attempts_and_delays_def)

lemma trace_turn_succeeded [simp]:
  "attempts_and_delays (effects (turn_succeeded t s)) = attempts_and_delays (effects s)"
  by (simp add: turn_succeeded_def speak_def setStatus_def setCurrentAiResponse_def
      addMessageToTranscript_def attempts_and_delays_def)

lemma trace_turn_exhausted [simp]:
  "attempts_and_delays (effects (turn_exhausted s)) = attempts_and_delays (effects s)"
  by (simp add: turn_exhausted_def speak_def setCurrentAiResponse_def
      addMessageToTranscript_def attempts_and_delays_def)

lemma loop_last_pass:
  "attempts_and_delays (effects (getNextAiMessage_from P m (Suc (Suc 0)) s)) =
     attempts_and_delays (effects s) @ [StreamNextQuestion m]"
  unfolding numeral_2_eq_2 [symmetric]
  by (cases "completes (P m 2)") (simp_all add: loop_success loop_exhausted)

lemma turn_trace_first:
  "completes (P m 0) \<Longrightarrow>
   attempts_and_delays (effects (getNextAiMessage P m s)) =
     attempts_and_delays (effects s) @ [StreamNextQuestion m]"
  by (simp add: getNextAiMessage_def loop_success)

lemma turn_trace_second:
  "\<not> completes (P m 0) \<Longrightarrow> completes (P m 1) \<Longrightarrow>
   attempts_and_delays (effects (getNextAiMessage P m s)) =
     attempts_and_delays (effects s) @
       [StreamNextQuestion m, Timeout 2000, StreamNextQuestion m]"
  by (simp add: getNextAiMessage_def loop_retry loop_success)

lemma turn_trace_third:
  "\<not> completes (P m 0) \<Longrightarrow> \<not> completes (P m 1) \<Longrightarrow>
   attempts_and_delays (effects (getNextAiMessage P m s)) =
     attempts_and_delays (effects s) @
       [StreamNextQuestion m, Timeout 2000, StreamNextQuestion m, Timeout 4000,
        StreamNextQuestion m]"
  by (simp add: getNextAiMessage_def loop_retry loop_last_pass)

section \<open>One pass of the loop of fetchResults\<close>

lemma try_ok:
  "fst (fetchResults_try gE gR now u a s) = pass_ok gE gR (transcript s) (goal u) a"
  by (simp add: fetchResults_try_def pass_ok_def Let_def split: option.split)

lemma try_effects:
  "effects (snd (fetchResults_try gE gR now u a s)) =
     effects s @ pass_calls gE (transcript s) (goal u) a"
  by (simp add: fetchResults_try_def pass_calls_def Let_def called_def setLoadingMessage_def
      setError_def setIsLoading_def setEvaluation_def setRoadmap_def split: option.split)

lemma try_transcript [simp]:
  "transcript (snd (fetchResults_try gE gR now u a s)) = transcript s"
  by (simp add: fetchResults_try_def Let_def called_def setLoadingMessage_def
      setError_def setIsLoading_def setEvaluation_def setRoadmap_def split: option.split)

lemma results_pass_ok:
  "a \<le> 2 \<Longrightarrow> pass_ok gE gR (transcript s) (goal u) a \<Longrightarrow>
   fetchResults_from gE gR now u a s = snd (fetchResults_try gE gR now u a s)"
  by (subst fetchResults_from.simps)
     (simp add: maxRetries_def case_prod_beta try_ok)

lemma results_pass_retry:
  "a < 2 \<Longrightarrow> \<not> pass_ok gE gR (transcript s) (goal u) a \<Longrightarrow>
   fetchResults_from gE gR now u a s =
     fetchResults_from gE gR now u (Suc a)
       (results_retry (Suc a) (snd (fetchResults_try gE gR now u a s)))"
  by (subst fetchResults_from.simps)
     (simp add: maxRetries_def case_prod_beta try_ok)

lemma results_pass_exhausted:
  "\<not> pass_ok gE gR (transcript s) (goal u) 2 \<Longrightarrow>
   fetchResults_from gE gR now u 2 s =
     results_exhausted (snd (fetchResults_try gE gR now u 2 s))"
  apply (subst fetchResults_from.simps)
  apply (subst fetchResults_from.simps)
  apply (simp add: maxRetries_def case_prod_beta try_ok)
  done

lemma retry_transcript [simp]: "transcript (results_retry a s) = transcript s"
  by (simp add: results_retry_def called_def setLoadingMessage_def)

lemma retry_effects: "effects (results_retry a s) = effects s @ [Timeout (2 ^ a * 1000)]"
  by (simp add: results_retry_def called_def setLoadingMessage_def)

lemma exhausted_effects [simp]: "effects (results_exhausted s) = effects s"
  by (simp add: results_exhausted_def setIsLoading_def setError_def)

lemma results_last_pass:
  "effects (fetchResults_from gE gR now u (Suc (Suc 0)) s) =
     effects s @ pass_calls gE (transcript s) (goal u) 2"
  unfolding numeral_2_eq_2 [symmetric]
  by (cases "pass_ok gE gR (transcript s) (goal u) 2")
     (simp_all add: results_pass_ok results_pass_exhausted try_effects)

lemma results_trace_first:
  "pass_ok gE gR (transcript s) (goal u) 0 \<Longrightarrow>
   effects (fetchResults_from gE gR now u 0 s) =
     effects s @ pass_calls gE (transcript s) (goal u) 0"
  by (simp add: results_pass_ok try_effects)

lemma results_trace_second:
  "\<not> pass_ok gE gR (transcript s) (goal u) 0 \<Longrightarrow> pass_ok gE gR (transcript s) (goal u) 1 \<Longrightarrow>
   effects (fetchResults_from gE gR now u 0 s) =
     effects s @ pass_calls gE (transcript s) (goal u) 0 @ [Timeout 2000] @
       pass_calls gE (transcript s) (goal u) 1"
  by (simp add: results_pass_retry results_pass_ok try_effects retry_effects)

lemma results_trace_third:
  "\<not> pass_ok gE gR (transcript s) (goal u) 0 \<Longrightarrow> \<not> pass_ok gE gR (transcript s) (goal u) 1 \<Longrightarrow>
   effects (fetchResults_from gE gR now u 0 s) =
     effects s @ pass_calls gE (transcript s) (goal u) 0 @ [Timeout 2000] @
       pass_calls gE (transcript s) (goal u) 1 @ [Timeout 4000] @
       pass_calls gE (transcript s) (goal u) 2"
  by (simp add: results_pass_retry results_last_pass try_effects retry_effects)


section \<open>Counting the calls\<close>

lemma stream_calls_of_trace:
  "filter is_stream_call es = filter is_stream_call (attempts_and_delays es)"
proof -
  have "\<And>e. is_stream_call e \<Longrightarrow> is_attempt_or_delay e"
    by (case_tac e) simp_all
  then show ?thesis
    unfolding attempts_and_delays_def filter_filter
    by (intro filter_cong) auto
qed

lemma turn_stream_calls:
  "length (filter is_stream_call (effects (getNextAiMessage P m s))) \<le>
     length (filter is_stream_call (effects s)) + 3"
proof -
  consider "completes (P m 0)" | "\<not> completes (P m 0)" "completes (P m 1)"
    | "\<not> completes (P m 0)" "\<not> completes (P m 1)"
    by blast
  then show ?thesis
  proof cases
    case 1
    then show ?thesis
      by (simp add: stream_calls_of_trace [of "effects (getNextAiMessage P m s)"]
          stream_calls_of_trace [of "effects s"] turn_trace_first)
  next
    case 2
    then show ?thesis
      by (simp add: stream_calls_of_trace [of "effects (getNextAiMessage P m s)"]
          stream_calls_of_trace [of "effects s"] turn_trace_second)
  next
    case 3
    then show ?thesis
      by (simp add: stream_calls_of_trace [of "effects (getNextAiMessage P m s)"]
          stream_calls_of_trace [of "effects s"] turn_trace_third)
  qed
qed

lemma pass_calls_evaluation: "length (filter is_evaluation_call (pass_calls gE ms g n)) = 1"
  by (simp add: pass_calls_def split: option.split)

lemma pass_calls_roadmap: "length (filter is_roadmap_call (pass_calls gE ms g n)) \<le> 1"
  by (simp add: pass_calls_def split: option.split)

lemma results_calls:
  "length (filter is_evaluation_call (effects (fetchResults_from gE gR now u 0 s))) \<le>
     length (filter is_evaluation_call (effects s)) + 3 \<and>
   length (filter is_roadmap_call (effects (fetchResults_from gE gR now u 0 s))) \<le>
     length (filter is_roadmap_call (effects s)) + 3"
proof -
  let ?ok = "pass_ok gE gR (transcript s) (goal u)"
  note r = pass_calls_roadmap [of gE "transcript s" "goal u"]
  consider "?ok 0" | "\<not> ?ok 0" "?ok 1" | "\<not> ?ok 0" "\<not> ?ok 1"
    by blast
  then show ?thesis
  proof cases
    case 1
    then show ?thesis
      using r [of 0] by (simp add: results_trace_first pass_calls_evaluation)
  next
    case 2
    then show ?thesis
      using r [of 0] r [of 1] by (simp add: results_trace_second pass_calls_evaluation)
  next
    case 3
    then show ?thesis
      using r [of 0] r [of 1] r [of 2] by (simp add: results_trace_third pass_calls_evaluation)
  qed
qed

lemma fetchResults_guarded:
  "user r = Some u \<Longrightarrow> transcript r \<noteq> [] \<Longrightarrow>
   fetchResults gE gR now r = fetchResults_from gE gR now u 0 r"
  by (simp add: fetchResults_def)

section \<open>C2: the retry loops\<close>

text \<open>
  Claim C2 read step by step fails for the evaluation step: the evaluation is delivered
  in the first pass, the roadmap call of that pass throws, and after two seconds
  \<^verbatim>\<open>generateEvaluation\<close> is called again, because both calls sit in one \<^verbatim>\<open>try\<close> block
  under one attempt counter.
\<close>

theorem evaluation_repeated_after_success_counterexample:
  "evaluation_delivered sample_transcript ''Data Analyst'' 0 = Some sample_evaluation \<and>
   effects (fetchResults evaluation_delivered roadmap_fails_once sample_clock sample_results) =
     [GenerateEvaluation sample_transcript ''Data Analyst'',
      GenerateRoadmap Intermediate ''Data Analyst'',
      Timeout 2000,
      GenerateEvaluation sample_transcript ''Data Analyst'',
      GenerateRoadmap Intermediate ''Data Analyst'']"
proof -
  have u: "user sample_results = Some sample_user"
    and t: "transcript sample_results \<noteq> []"
    by (simp_all add: sample_results_def sample_transcript_def)
  have ms: "transcript sample_results = sample_transcript"
    and g: "goal sample_user = ''Data Analyst''"
    and e: "effects sample_results = []"
    by (simp_all add: sample_results_def sample_user_def)
  have "\<not> pass_ok evaluation_delivered roadmap_fails_once (transcript sample_results) (goal sample_user) 0"
    and "pass_ok evaluation_delivered roadmap_fails_once (transcript sample_results) (goal sample_user) 1"
    by (simp_all add: pass_ok_def evaluation_delivered_def roadmap_fails_once_def)
  then have "effects (fetchResults_from evaluation_delivered roadmap_fails_once sample_clock sample_user 0 sample_results) =
      effects sample_results @
      pass_calls evaluation_delivered (transcript sample_results) (goal sample_user) 0 @ [Timeout 2000] @
      pass_calls evaluation_delivered (transcript sample_results) (goal sample_user) 1"
    by (rule results_trace_second)
  then have "effects (fetchResults evaluation_delivered roadmap_fails_once sample_clock sample_results) =
      pass_calls evaluation_delivered sample_transcript ''Data Analyst'' 0 @ [Timeout 2000] @
      pass_calls evaluation_delivered sample_transcript ''Data Analyst'' 1"
    by (simp add: fetchResults_guarded [OF u t] ms g e)
  then show ?thesis
    by (simp add: pass_calls_def evaluation_delivered_def sample_evaluation_def)
qed

text \<open>
  Claim C2, amended. The guarded unit is one pass of a loop: a streamed turn in
  \<^verbatim>\<open>getNextAiMessage\<close>, and the evaluation call followed by the roadmap call in
  \<^verbatim>\<open>fetchResults\<close>. A pass that succeeds ends the loop; when the first pass fails the
  second starts after 2000 ms; when the first two fail the third starts after 2000 ms and
  4000 ms; no fourth pass is made, so each provider operation is called at most three
  times.
\<close>

theorem retry_loops_three_passes_backoff:
  assumes "user r = Some u" and "transcript r \<noteq> []"
  shows "(completes (P m 0) \<longrightarrow>
            attempts_and_delays (effects (getNextAiMessage P m s)) =
              attempts_and_delays (effects s) @ [StreamNextQuestion m]) \<and>
         (\<not> completes (P m 0) \<and> completes (P m 1) \<longrightarrow>
            attempts_and_delays (effects (getNextAiMessage P m s)) =
              attempts_and_delays (effects s) @
                [StreamNextQuestion m, Timeout 2000, StreamNextQuestion m]) \<and>
         (\<not> completes (P m 0) \<and> \<not> completes (P m 1) \<longrightarrow>
            attempts_and_delays (effects (getNextAiMessage P m s)) =
              attempts_and_delays (effects s) @
                [StreamNextQuestion m, Timeout 2000, StreamNextQuestion m, Timeout 4000,
                 StreamNextQuestion m]) \<and>
         length (filter is_stream_call (effects (getNextAiMessage P m s))) \<le>
           length (filter is_stream_call (effects s)) + 3 \<and>
         (pass_ok gE gR (transcript r) (goal u) 0 \<longrightarrow>
            effects (fetchResults gE gR now r) =
              effects r @ pass_calls gE (transcript r) (goal u) 0) \<and>
         (\<not> pass_ok gE gR (transcript r) (goal u) 0 \<and> pass_ok gE gR (transcript r) (goal u) 1 \<longrightarrow>
            effects (fetchResults gE gR now r) =
              effects r @ pass_calls gE (transcript r) (goal u) 0 @ [Timeout 2000] @
                pass_calls gE (transcript r) (goal u) 1) \<and>
         (\<not> pass_ok gE gR (transcript r) (goal u) 0 \<and> \<not> pass_ok gE gR (transcript r) (goal u) 1 \<longrightarrow>
            effects (fetchResults gE gR now r) =
              effects r @ pass_calls gE (transcript r) (goal u) 0 @ [Timeout 2000] @
                pass_calls gE (transcript r) (goal u) 1 @ [Timeout 4000] @
                pass_calls gE (transcript r) (goal u) 2) \<and>
         length (filter is_evaluation_call (effects (fetchResults gE gR now r))) \<le>
           length (filter is_evaluation_call (effects r)) + 3 \<and>
         length (filter is_roadmap_call (effects (fetchResults gE gR now r))) \<le>
           length (filter is_roadmap_call (effects r)) + 3"
  unfolding fetchResults_guarded [OF assms]
  using turn_trace_first [of P m s] turn_trace_second [of P m s] turn_trace_third [of P m s]
    turn_stream_calls [of P m s]
    results_trace_first [of gE gR r u now] results_trace_second [of gE gR r u now]
    results_trace_third [of gE gR r u now] results_calls [of gE gR now u r]
  by blast

theorem retry_loops_three_passes_backoff_witness:
  "user sample_results = Some sample_user \<and> transcript sample_results \<noteq> [] \<and>
   \<not> completes (stream_third_time ''Start the interview.'' 0) \<and>
   \<not> completes (stream_third_time ''Start the interview.'' 1) \<and>
   attempts_and_delays (effects (getNextAiMessage stream_third_time ''Start the interview.'' sample_interview)) =
     [StreamNextQuestion ''Start the interview.'', Timeout 2000,
      StreamNextQuestion ''Start the interview.'', Timeout 4000,
      StreamNextQuestion ''Start the interview.''] \<and>
   length (filter is_evaluation_call
     (effects (fetchResults evaluation_delivered roadmap_fails_once sample_clock sample_results))) \<le> 3"
proof -
  have u: "user sample_results = Some sample_user"
    and t: "transcript sample_results \<noteq> []"
    by (simp_all add: sample_results_def sample_transcript_def)
  have c: "\<not> completes (stream_third_time ''Start the interview.'' 0)"
    "\<not> completes (stream_third_time ''Start the interview.'' 1)"
    by (simp_all add: stream_third_time_def)
  have e: "effects sample_interview = []" "effects sample_results = []"
    by (simp_all add: sample_interview_def sample_results_def)
  note th = retry_loops_three_passes_backoff [OF u t,
      where P = stream_third_time and m = "''Start the interview.''" and s = sample_interview
        and gE = evaluation_delivered and gR = roadmap_fails_once and now = sample_clock]
  from th c have "attempts_and_delays (effects (getNextAiMessage stream_third_time ''Start the interview.'' sample_interview)) =
      attempts_and_delays (effects sample_interview) @
      [StreamNextQuestion ''Start the interview.'', Timeout 2000,
       StreamNextQuestion ''Start the interview.'', Timeout 4000,
       StreamNextQuestion ''Start the interview.'']"
    by blast
  moreover from th have "length (filter is_evaluation_call
      (effects (fetchResults evaluation_delivered roadmap_fails_once sample_clock sample_results))) \<le>
      length (filter is_evaluation_call (effects sample_results)) + 3"
    by blast
  ultimately show ?thesis
    using u t c by (simp add: e attempts_and_delays_def)
qed


section \<open>What a failed pass leaves behind\<close>

lemma try_evaluation:
  "evaluation (snd (fetchResults_try gE gR now u a s)) =
     (case gE (transcript s) (goal u) a of None \<Rightarrow> evaluation s | Some ev \<Rightarrow> Some ev)"
  by (simp add: fetchResults_try_def Let_def called_def setLoadingMessage_def
      setError_def setIsLoading_def setEvaluation_def setRoadmap_def split: option.split)

lemma try_roadmap_failed:
  "\<not> pass_ok gE gR (transcript s) (goal u) a \<Longrightarrow>
   roadmap (snd (fetchResults_try gE gR now u a s)) = roadmap s"
  by (auto simp: fetchResults_try_def pass_ok_def Let_def called_def setLoadingMessage_def
      setError_def setIsLoading_def setEvaluation_def setRoadmap_def split: option.splits)

lemma retry_evaluation [simp]: "evaluation (results_retry a s) = evaluation s"
  by (simp add: results_retry_def called_def setLoadingMessage_def)

lemma retry_roadmap [simp]: "roadmap (results_retry a s) = roadmap s"
  by (simp add: results_retry_def called_def setLoadingMessage_def)

lemma exhausted_fields [simp]:
  "evaluation (results_exhausted s) = evaluation s"
  "roadmap (results_exhausted s) = roadmap s"
  "error (results_exhausted s) = Some failureMessage"
  "isLoading (results_exhausted s) = False"
  by (simp_all add: results_exhausted_def setIsLoading_def setError_def)

lemma results_all_fail:
  assumes "\<not> pass_ok gE gR (transcript s) (goal u) 0"
    and "\<not> pass_ok gE gR (transcript s) (goal u) 1"
    and "\<not> pass_ok gE gR (transcript s) (goal u) 2"
  shows "fetchResults_from gE gR now u 0 s =
     results_exhausted (snd (fetchResults_try gE gR now u 2
       (results_retry 2 (snd (fetchResults_try gE gR now u 1
         (results_retry 1 (snd (fetchResults_try gE gR now u 0 s))))))))"
proof -
  let ?s1 = "results_retry 1 (snd (fetchResults_try gE gR now u 0 s))"
  let ?s2 = "results_retry 2 (snd (fetchResults_try gE gR now u 1 ?s1))"
  have "fetchResults_from gE gR now u 0 s = fetchResults_from gE gR now u 1 ?s1"
    using assms(1) by (simp add: results_pass_retry)
  also have "\<dots> = fetchResults_from gE gR now u 2 ?s2"
    using assms(2) results_pass_retry [of 1 gE gR ?s1 u now] by (simp add: numeral_2_eq_2)
  also have "\<dots> = results_exhausted (snd (fetchResults_try gE gR now u 2 ?s2))"
    using assms(3) by (simp add: results_pass_exhausted)
  finally show ?thesis .
qed

section \<open>C3: the pipeline after three failed passes\<close>

text \<open>
  Claim C3 fails where it says that the Evaluation state stays unset: the evaluation is
  stored as soon as it is delivered, before the roadmap is asked for. With an evaluation
  delivered in every pass and a roadmap call that always throws, the pipeline ends with the
  error message and the context holds the evaluation.
\<close>

theorem evaluation_kept_after_failure_counterexample:
  "evaluation sample_results = None \<and>
   evaluation (fetchResults evaluation_delivered roadmap_fails_always sample_clock sample_results) =
     Some sample_evaluation \<and>
   error (fetchResults evaluation_delivered roadmap_fails_always sample_clock sample_results) =
     Some failureMessage"
proof -
  have u: "user sample_results = Some sample_user"
    and t: "transcript sample_results \<noteq> []"
    by (simp_all add: sample_results_def sample_transcript_def)
  have "\<And>n. \<not> pass_ok evaluation_delivered roadmap_fails_always (transcript sample_results) (goal sample_user) n"
    by (simp add: pass_ok_def evaluation_delivered_def roadmap_fails_always_def)
  then have "fetchResults evaluation_delivered roadmap_fails_always sample_clock sample_results =
     results_exhausted (snd (fetchResults_try evaluation_delivered roadmap_fails_always sample_clock sample_user 2
       (results_retry 2 (snd (fetchResults_try evaluation_delivered roadmap_fails_always sample_clock sample_user 1
         (results_retry 1 (snd (fetchResults_try evaluation_delivered roadmap_fails_always sample_clock sample_user 0 sample_results))))))))"
    unfolding fetchResults_guarded [OF u t] by (intro results_all_fail)
  then show ?thesis
    by (simp add: try_evaluation evaluation_delivered_def) (simp add: sample_results_def)
qed

text \<open>
  Claim C3, amended. When all three passes fail, the pipeline ends with the fixed error
  message and loading switched off, the roadmap is the one the context held before, and
  \<^verbatim>\<open>ResultsPage\<close> renders the error card and nothing else. The Evaluation state is not
  rolled back: it is the evaluation delivered by the last pass whose evaluation call
  succeeded, and it is what it was before only when the evaluation call failed in every
  pass.
\<close>

theorem results_failure_error_shown_evaluation_kept:
  assumes "user s = Some u" and "transcript s \<noteq> []"
    and "\<not> pass_ok gE gR (transcript s) (goal u) 0"
    and "\<not> pass_ok gE gR (transcript s) (goal u) 1"
    and "\<not> pass_ok gE gR (transcript s) (goal u) 2"
  shows "error (fetchResults gE gR now s) = Some failureMessage \<and>
         isLoading (fetchResults gE gR now s) = False \<and>
         render (fetchResults gE gR now s) = ErrorCard failureMessage \<and>
         roadmap (fetchResults gE gR now s) = roadmap s \<and>
         evaluation (fetchResults gE gR now s) =
           last_evaluation gE (transcript s) (goal u) (evaluation s)"
proof -
  let ?s1 = "results_retry 1 (snd (fetchResults_try gE gR now u 0 s))"
  let ?s2 = "results_retry 2 (snd (fetchResults_try gE gR now u 1 ?s1))"
  have eq: "fetchResults gE gR now s = results_exhausted (snd (fetchResults_try gE gR now u 2 ?s2))"
    unfolding fetchResults_guarded [OF assms(1,2)] using assms(3-5) by (rule results_all_fail)
  have t1: "transcript ?s1 = transcript s" and t2: "transcript ?s2 = transcript s"
    by simp_all
  have "roadmap (snd (fetchResults_try gE gR now u 2 ?s2)) = roadmap ?s2"
    by (rule try_roadmap_failed) (unfold t2, rule assms(5))
  also have "roadmap ?s2 = roadmap (snd (fetchResults_try gE gR now u 1 ?s1))"
    by simp
  also have "\<dots> = roadmap ?s1"
    by (rule try_roadmap_failed) (unfold t1, rule assms(4))
  also have "\<dots> = roadmap s"
    using assms(3) by (simp add: try_roadmap_failed)
  finally have r: "roadmap (fetchResults gE gR now s) = roadmap s"
    by (simp add: eq)
  have e: "evaluation (fetchResults gE gR now s) =
      last_evaluation gE (transcript s) (goal u) (evaluation s)"
    by (simp add: eq try_evaluation last_evaluation_def split: option.split)
  show ?thesis
    using r e by (simp add: eq render_def)
qed

theorem results_failure_error_shown_evaluation_kept_witness:
  "user sample_results = Some sample_user \<and> transcript sample_results \<noteq> [] \<and>
   \<not> pass_ok evaluation_delivered roadmap_fails_always (transcript sample_results) (goal sample_user) 0 \<and>
   \<not> pass_ok evaluation_delivered roadmap_fails_always (transcript sample_results) (goal sample_user) 1 \<and>
   \<not> pass_ok evaluation_delivered roadmap_fails_always (transcript sample_results) (goal sample_user) 2 \<and>
   render (fetchResults evaluation_delivered roadmap_fails_always sample_clock sample_results) =
     ErrorCard failureMessage \<and>
   roadmap (fetchResults evaluation_delivered roadmap_fails_always sample_clock sample_results) = [] \<and>
   evaluation (fetchResults evaluation_delivered roadmap_fails_always sample_clock sample_results) =
     Some sample_evaluation"
proof -
  have u: "user sample_results = Some sample_user"
    and t: "transcript sample_results \<noteq> []"
    by (simp_all add: sample_results_def sample_transcript_def)
  have p: "\<And>n. \<not> pass_ok evaluation_delivered roadmap_fails_always (transcript sample_results) (goal sample_user) n"
    by (simp add: pass_ok_def evaluation_delivered_def roadmap_fails_always_def)
  note th = results_failure_error_shown_evaluation_kept [OF u t p p p, where now = sample_clock]
  have "roadmap sample_results = []"
    by (simp add: sample_results_def)
  moreover have "last_evaluation evaluation_delivered (transcript sample_results) (goal sample_user)
      (evaluation sample_results) = Some sample_evaluation"
    by (simp add: last_evaluation_def evaluation_delivered_def)
  ultimately show ?thesis
    using th u t p by simp
qed

section \<open>C4: a second run of the effect\<close>

text \<open>
  Claim C4. When the context already holds an Evaluation, the effect of \<^verbatim>\<open>ResultsPage\<close>
  only switches loading off: it makes no call to \<^verbatim>\<open>generateEvaluation\<close> or
  \<^verbatim>\<open>generateRoadmap\<close> (no effect is added) and leaves the Evaluation and the Roadmap as
  they are.
\<close>

theorem results_pipeline_idempotent:
  assumes "evaluation s \<noteq> None"
  shows "resultsEffect gE gR now s = s\<lparr>isLoading := False\<rparr> \<and>
         effects (resultsEffect gE gR now s) = effects s \<and>
         evaluation (resultsEffect gE gR now s) = evaluation s \<and>
         roadmap (resultsEffect gE gR now s) = roadmap s"
  using assms by (cases "evaluation s") (simp_all add: resultsEffect_def setIsLoading_def)

theorem results_pipeline_idempotent_witness:
  "evaluation (sample_results\<lparr>evaluation := Some sample_evaluation\<rparr>) \<noteq> None \<and>
   effects (resultsEffect evaluation_delivered roadmap_fails_once sample_clock
     (sample_results\<lparr>evaluation := Some sample_evaluation\<rparr>)) = [] \<and>
   evaluation (resultsEffect evaluation_delivered roadmap_fails_once sample_clock
     (sample_results\<lparr>evaluation := Some sample_evaluation\<rparr>)) = Some sample_evaluation \<and>
   roadmap (resultsEffect evaluation_delivered roadmap_fails_once sample_clock
     (sample_results\<lparr>evaluation := Some sample_evaluation\<rparr>)) = []"
  using results_pipeline_idempotent
    [of "sample_results\<lparr>evaluation := Some sample_evaluation\<rparr>"
        evaluation_delivered roadmap_fails_once sample_clock]
  by (simp add: sample_results_def)

section \<open>C7: the guard of the pipeline\<close>

lemma evaluation_call_of_pass:
  "GenerateEvaluation ms g \<in> set (pass_calls gE ms' g' n) \<Longrightarrow> ms = ms'"
  by (auto simp: pass_calls_def split: option.splits)

lemma evaluation_calls_nonempty:
  assumes "transcript s \<noteq> []"
    and "GenerateEvaluation ms g \<in> set (effects (fetchResults_from gE gR now u 0 s))"
  shows "GenerateEvaluation ms g \<in> set (effects s) \<or> ms \<noteq> []"
proof -
  let ?ok = "pass_ok gE gR (transcript s) (goal u)"
  consider "?ok 0" | "\<not> ?ok 0" "?ok 1" | "\<not> ?ok 0" "\<not> ?ok 1"
    by blast
  then show ?thesis
  proof cases
    case 1
    with assms show ?thesis
      by (auto simp: results_trace_first dest: evaluation_call_of_pass)
  next
    case 2
    with assms show ?thesis
      by (auto simp: results_trace_second dest: evaluation_call_of_pass)
  next
    case 3
    with assms show ?thesis
      by (auto simp: results_trace_third dest: evaluation_call_of_pass)
  qed
qed

text \<open>
  Claim C7. Without a user (the Session Goal) or with an empty transcript,
  \<^verbatim>\<open>fetchResults\<close> only sets the message "No interview data found. Please start a new
  interview." and switches loading off, and makes no provider call. Every call of
  \<^verbatim>\<open>generateEvaluation\<close> that \<^verbatim>\<open>fetchResults\<close> makes is given a non-empty transcript.
\<close>

theorem results_pipeline_needs_goal_and_transcript:
  "(user s = None \<or> transcript s = [] \<longrightarrow>
      fetchResults gE gR now s = s\<lparr>error := Some noDataMessage, isLoading := False\<rparr> \<and>
      effects (fetchResults gE gR now s) = effects s) \<and>
   (GenerateEvaluation ms g \<in> set (effects (fetchResults gE gR now s)) \<longrightarrow>
      GenerateEvaluation ms g \<in> set (effects s) \<or> ms \<noteq> [])"
proof (intro conjI impI)
  assume "user s = None \<or> transcript s = []"
  then show "fetchResults gE gR now s = s\<lparr>error := Some noDataMessage, isLoading := False\<rparr>"
    by (auto simp: fetchResults_def setIsLoading_def setError_def split: option.split)
  then show "effects (fetchResults gE gR now s) = effects s"
    by simp
next
  assume a: "GenerateEvaluation ms g \<in> set (effects (fetchResults gE gR now s))"
  show "GenerateEvaluation ms g \<in> set (effects s) \<or> ms \<noteq> []"
  proof (cases "user s")
    case None
    with a show ?thesis
      by (simp add: fetchResults_def setIsLoading_def setError_def)
  next
    case (Some u)
    show ?thesis
    proof (cases "transcript s = []")
      case True
      with a Some show ?thesis
        by (simp add: fetchResults_def setIsLoading_def setError_def)
    next
      case False
      with a Some show ?thesis
        using evaluation_calls_nonempty [of s ms g gE gR now u]
        by (simp add: fetchResults_def)
    qed
  qed
qed

theorem results_pipeline_needs_goal_and_transcript_witness:
  "(user (sample_results\<lparr>transcript := []\<rparr>) = None \<or> transcript (sample_results\<lparr>transcript := []\<rparr>) = []) \<and>
   error (fetchResults evaluation_delivered roadmap_fails_once sample_clock (sample_results\<lparr>transcript := []\<rparr>)) =
     Some noDataMessage \<and>
   isLoading (fetchResults evaluation_delivered roadmap_fails_once sample_clock (sample_results\<lparr>transcript := []\<rparr>)) = False \<and>
   effects (fetchResults evaluation_delivered roadmap_fails_once sample_clock (sample_results\<lparr>transcript := []\<rparr>)) = [] \<and>
   GenerateEvaluation sample_transcript ''Data Analyst'' \<in>
     set (effects (fetchResults evaluation_delivered roadmap_fails_once sample_clock sample_results)) \<and>
   sample_transcript \<noteq> []"
proof -
  have e: "effects sample_results = []"
    and u: "user sample_results = Some sample_user"
    and t: "transcript sample_results \<noteq> []"
    and ms: "transcript sample_results = sample_transcript"
    and g: "goal sample_user = ''Data Analyst''"
    by (simp_all add: sample_results_def sample_user_def sample_transcript_def)
  have "fetchResults evaluation_delivered roadmap_fails_once sample_clock (sample_results\<lparr>transcript := []\<rparr>) =
      sample_results\<lparr>transcript := [], error := Some noDataMessage, isLoading := False\<rparr>"
    using results_pipeline_needs_goal_and_transcript
      [of "sample_results\<lparr>transcript := []\<rparr>" evaluation_delivered roadmap_fails_once sample_clock]
    by simp
  moreover have "\<not> pass_ok evaluation_delivered roadmap_fails_once (transcript sample_results) (goal sample_user) 0"
    and "pass_ok evaluation_delivered roadmap_fails_once (transcript sample_results) (goal sample_user) 1"
    by (simp_all add: pass_ok_def evaluation_delivered_def roadmap_fails_once_def)
  then have "effects (fetchResults_from evaluation_delivered roadmap_fails_once sample_clock sample_user 0 sample_results) =
      effects sample_results @
      pass_calls evaluation_delivered (transcript sample_results) (goal sample_user) 0 @ [Timeout 2000] @
      pass_calls evaluation_delivered (transcript sample_results) (goal sample_user) 1"
    by (rule results_trace_second)
  then have m: "GenerateEvaluation sample_transcript ''Data Analyst'' \<in>
      set (effects (fetchResults evaluation_delivered roadmap_fails_once sample_clock sample_results))"
    by (simp add: fetchResults_guarded [OF u t] ms g e pass_calls_def evaluation_delivered_def)
  moreover from m have "sample_transcript \<noteq> []"
    using results_pipeline_needs_goal_and_transcript
      [of sample_results evaluation_delivered roadmap_fails_once sample_clock
          sample_transcript "''Data Analyst''"]
    by (simp add: e)
  ultimately show ?thesis
    by (simp add: e)
qed


section \<open>C5: the score that scoreResume returns\<close>

lemma parseInt_82: "parseInt (JString ''82'') = Value (Integer 82)"
  by (simp add: parseInt_def parseInt_string_def isDigit_def isWhiteSpace_def isAscii_def
      digitValue_def exactDouble_def)

lemma parseInt_beyond_exact: "parseInt (JString ''9007199254740993'') = Undetermined"
  by (simp add: parseInt_def parseInt_string_def isDigit_def isWhiteSpace_def isAscii_def
      digitValue_def exactDouble_def)

lemma parseInt_beyond_ascii: "parseInt (JString (CHR 0xA0 # ''82'')) = Undetermined"
  by (simp add: parseInt_def parseInt_string_def isWhiteSpace_def isAscii_def)

lemma parseInt_member_toString:
  "parseInt (JArray [JNumber 82, JObject [(''toString'', JNull)]]) = TypeError"
  by (simp add: parseInt_def exactDouble_def)

lemma gemini_score_number:
  "is_number (score r) \<Longrightarrow> GeminiAIService_scoreResume r = Value r"
  by (cases "score r") (simp_all add: GeminiAIService_scoreResume_def)

lemma gemini_score_other:
  "\<not> is_number (score r) \<Longrightarrow>
   GeminiAIService_scoreResume r =
     and_then (parseInt (score r)) (\<lambda>parsed. Value (r\<lparr>score := JNumber (or_zero parsed)\<rparr>))"
  by (cases "score r") (simp_all add: GeminiAIService_scoreResume_def)

lemma or_zero_eq: "or_zero x = (case x of NaN \<Rightarrow> 0 | Integer n \<Rightarrow> n)"
  by (simp add: or_zero_def split: number.split)

text \<open>
  Claim C5 fails on the range: nothing confines the score to 0..100. For the reply whose
  score is the string "150", \<^verbatim>\<open>GeminiAIService.scoreResume\<close> returns the number 150.
\<close>

theorem score_above_hundred_counterexample:
  "GeminiAIService_scoreResume (reply_with_score ''150'') =
     Value ((reply_with_score ''150'')\<lparr>score := JNumber 150\<rparr>) \<and>
   \<not> score_in_range ((reply_with_score ''150'')\<lparr>score := JNumber 150\<rparr>)"
  by (simp add: GeminiAIService_scoreResume_def reply_with_score_def score_in_range_def
      or_zero_def parseInt_def parseInt_string_def isDigit_def isWhiteSpace_def isAscii_def
      digitValue_def exactDouble_def)

text \<open>
  Claim C5, amended, for \<^verbatim>\<open>GeminiAIService.scoreResume\<close>, the service the application
  uses. A score that is a number already is returned as it is, whatever its value. For any
  other score, where \<^verbatim>\<open>parseInt(score, 10)\<close> is determined (the characters it trims are
  ASCII and the integer it reads is at most \<open>2^53\<close> in absolute value) and does not throw,
  the score is replaced by \<^verbatim>\<open>parseInt(score, 10) || 0\<close>, an integer: the string "82" gives
  82, and a score in which \<^verbatim>\<open>parseInt\<close> finds no digits gives 0. Where \<^verbatim>\<open>parseInt\<close> throws
  (the score is an object with an own member \<^verbatim>\<open>toString\<close>), \<^verbatim>\<open>scoreResume\<close> throws. Whenever a
  result is returned, its score is a number and its other two fields are those of the
  reply.
\<close>

theorem gemini_score_coerced_to_integer:
  "(is_number (score r) \<longrightarrow> GeminiAIService_scoreResume r = Value r) \<and>
   (\<not> is_number (score r) \<and> parseInt (score r) = Value parsed \<longrightarrow>
      GeminiAIService_scoreResume r =
        Value (r\<lparr>score := JNumber (case parsed of NaN \<Rightarrow> 0 | Integer n \<Rightarrow> n)\<rparr>)) \<and>
   (\<not> is_number (score r) \<and> parseInt (score r) = TypeError \<longrightarrow>
      GeminiAIService_scoreResume r = TypeError) \<and>
   GeminiAIService_scoreResume \<lparr>score = JString ''82'', strengths = a, weaknesses = b\<rparr> =
     Value \<lparr>score = JNumber 82, strengths = a, weaknesses = b\<rparr> \<and>
   (GeminiAIService_scoreResume r = Value r' \<longrightarrow>
      is_number (score r') \<and> strengths r' = strengths r \<and> weaknesses r' = weaknesses r)"
proof (intro conjI impI)
  show "GeminiAIService_scoreResume r = Value r" if "is_number (score r)"
    using that by (rule gemini_score_number)
  show "GeminiAIService_scoreResume r =
      Value (r\<lparr>score := JNumber (case parsed of NaN \<Rightarrow> 0 | Integer n \<Rightarrow> n)\<rparr>)"
    if "\<not> is_number (score r) \<and> parseInt (score r) = Value parsed"
    using that by (simp add: gemini_score_other or_zero_eq)
  show "GeminiAIService_scoreResume r = TypeError"
    if "\<not> is_number (score r) \<and> parseInt (score r) = TypeError"
    using that by (simp add: gemini_score_other)
  show "GeminiAIService_scoreResume \<lparr>score = JString ''82'', strengths = a, weaknesses = b\<rparr> =
      Value \<lparr>score = JNumber 82, strengths = a, weaknesses = b\<rparr>"
    by (simp add: gemini_score_other parseInt_82 or_zero_def)
  assume v: "GeminiAIService_scoreResume r = Value r'"
  show "is_number (score r')" "strengths r' = strengths r" "weaknesses r' = weaknesses r"
  proof -
    have "is_number (score r') \<and> strengths r' = strengths r \<and> weaknesses r' = weaknesses r"
    proof (cases "is_number (score r)")
      case True
      with v show ?thesis
        by (simp add: gemini_score_number)
    next
      case False
      with v show ?thesis
        by (cases "parseInt (score r)") (auto simp: gemini_score_other)
    qed
    then show "is_number (score r')" "strengths r' = strengths r" "weaknesses r' = weaknesses r"
      by simp_all
  qed
qed

theorem gemini_score_coerced_to_integer_witness:
  "is_number (score \<lparr>score = JNumber 82, strengths = ''a'', weaknesses = ''b''\<rparr>) \<and>
   GeminiAIService_scoreResume \<lparr>score = JNumber 82, strengths = ''a'', weaknesses = ''b''\<rparr> =
     Value \<lparr>score = JNumber 82, strengths = ''a'', weaknesses = ''b''\<rparr> \<and>
   \<not> is_number (score (reply_with_score ''eighty'')) \<and>
   parseInt (score (reply_with_score ''eighty'')) = Value NaN \<and>
   GeminiAIService_scoreResume (reply_with_score ''eighty'') =
     Value ((reply_with_score ''eighty'')\<lparr>score := JNumber 0\<rparr>) \<and>
   \<not> is_number (score (reply_with_member_toString)) \<and>
   parseInt (score reply_with_member_toString) = TypeError \<and>
   GeminiAIService_scoreResume reply_with_member_toString = TypeError \<and>
   is_number (score ((reply_with_score ''eighty'')\<lparr>score := JNumber 0\<rparr>))"
proof -
  have p: "parseInt (score (reply_with_score ''eighty'')) = Value NaN"
    by (simp add: reply_with_score_def parseInt_def parseInt_string_def isDigit_def
        isWhiteSpace_def isAscii_def)
  have n: "\<not> is_number (score (reply_with_score ''eighty''))"
    by (simp add: reply_with_score_def)
  have t: "parseInt (score reply_with_member_toString) = TypeError"
    and m: "\<not> is_number (score reply_with_member_toString)"
    by (simp_all add: reply_with_member_toString_def parseInt_def)
  note number = gemini_score_coerced_to_integer
    [of "\<lparr>score = JNumber 82, strengths = ''a'', weaknesses = ''b''\<rparr>"]
  note words = gemini_score_coerced_to_integer
    [of "reply_with_score ''eighty''" NaN _ _ "(reply_with_score ''eighty'')\<lparr>score := JNumber 0\<rparr>"]
  note object = gemini_score_coerced_to_integer [of reply_with_member_toString]
  have a: "GeminiAIService_scoreResume \<lparr>score = JNumber 82, strengths = ''a'', weaknesses = ''b''\<rparr> =
      Value \<lparr>score = JNumber 82, strengths = ''a'', weaknesses = ''b''\<rparr>"
    using number by simp
  have b: "GeminiAIService_scoreResume (reply_with_score ''eighty'') =
      Value ((reply_with_score ''eighty'')\<lparr>score := JNumber 0\<rparr>)"
    using words p n by simp
  have c: "GeminiAIService_scoreResume reply_with_member_toString = TypeError"
    using object t m by simp
  have d: "is_number (score ((reply_with_score ''eighty'')\<lparr>score := JNumber 0\<rparr>))"
    using words b by blast
  show ?thesis
    using a b c d p n t m by simp
qed

section \<open>C6: the two services on the same reply\<close>

text \<open>
  Claim C6 says that both services return the same result for the same reply. For the
  reply whose score is the string "82", \<^verbatim>\<open>GeminiAIService.scoreResume\<close> returns the number
  82 and \<^verbatim>\<open>OpenAIAIService.scoreResume\<close> returns the string "82": the results differ.
\<close>

theorem services_differ_on_string_score:
  "GeminiAIService_scoreResume (reply_with_score ''82'') =
     Value ((reply_with_score ''82'')\<lparr>score := JNumber 82\<rparr>) \<and>
   OpenAIAIService_scoreResume (reply_with_score ''82'') =
     Value ((reply_with_score ''82'')\<lparr>score := JString ''82''\<rparr>) \<and>
   GeminiAIService_scoreResume (reply_with_score ''82'') \<noteq>
     OpenAIAIService_scoreResume (reply_with_score ''82'')"
  by (simp add: GeminiAIService_scoreResume_def OpenAIAIService_scoreResume_def
      reply_with_score_def or_zero_def parseInt_def parseInt_string_def isDigit_def
      isWhiteSpace_def isAscii_def digitValue_def exactDouble_def)

section \<open>Decimal numerals are injective\<close>

lemma digit_char_inj:
  "a < 10 \<Longrightarrow> b < 10 \<Longrightarrow> digit_char a = digit_char b \<Longrightarrow> a = b"
proof -
  assume a: "a < 10" and b: "b < 10" and e: "digit_char a = digit_char b"
  have d: "distinct ''0123456789''" by simp
  have "a < length ''0123456789''" "b < length ''0123456789''"
    using a b by simp_all
  with d e show "a = b"
    unfolding digit_char_def by (simp only: nth_eq_iff_index_eq)
qed

lemma digit_char_digit: "d < 10 \<Longrightarrow> digit_char d \<in> set ''0123456789''"
  unfolding digit_char_def by (rule nth_mem) simp

lemma String_of_nat_nonempty: "String_of_nat n \<noteq> []"
  by (subst String_of_nat.simps) simp

lemma String_of_nat_digits: "set (String_of_nat n) \<subseteq> set ''0123456789''"
proof (induction n rule: String_of_nat.induct)
  case (1 n)
  show ?case
  proof (cases "n < 10")
    case True
    then show ?thesis
      using digit_char_digit [of n] by (subst String_of_nat.simps) simp
  next
    case False
    then show ?thesis
      using 1 digit_char_digit [of "n mod 10"] by (subst String_of_nat.simps) simp
  qed
qed

lemma String_of_nat_inj: "String_of_nat a = String_of_nat b \<Longrightarrow> a = b"
proof (induction a arbitrary: b rule: String_of_nat.induct)
  case (1 a)
  note eq = "1.prems"
  show ?case
  proof (cases "a < 10")
    case small_a: True
    show ?thesis
    proof (cases "b < 10")
      case True
      with small_a eq show ?thesis
        by (simp add: String_of_nat.simps [of a] String_of_nat.simps [of b] digit_char_inj)
    next
      case False
      with small_a eq String_of_nat_nonempty [of "b div 10"] show ?thesis
        by (simp add: String_of_nat.simps [of a] String_of_nat.simps [of b])
    qed
  next
    case big_a: False
    show ?thesis
    proof (cases "b < 10")
      case True
      with big_a eq String_of_nat_nonempty [of "a div 10"] show ?thesis
        by (simp add: String_of_nat.simps [of a] String_of_nat.simps [of b])
    next
      case False
      with big_a eq have q: "String_of_nat (a div 10) = String_of_nat (b div 10)"
        and r: "digit_char (a mod 10) = digit_char (b mod 10)"
        by (simp_all add: String_of_nat.simps [of a] String_of_nat.simps [of b])
      from q have "a div 10 = b div 10"
        using big_a by (intro "1.IH") simp_all
      moreover from r have "a mod 10 = b mod 10"
        by (intro digit_char_inj) simp_all
      ultimately show ?thesis
        by (metis div_mult_mod_eq)
    qed
  qed
qed

lemma todo_id_inj: "todo_id i a = todo_id j b \<Longrightarrow> i = j"
proof -
  assume "todo_id i a = todo_id j b"
  then have eq: "String_of_nat i @ CHR ''-'' # String_of_int a =
      String_of_nat j @ CHR ''-'' # String_of_int b"
    by (simp add: todo_id_def)
  have no_dash: "\<And>n x. x \<in> set (String_of_nat n) \<Longrightarrow> x \<noteq> CHR ''-''"
    using String_of_nat_digits by fastforce
  have "\<And>n rest. takeWhile (\<lambda>x. x \<noteq> CHR ''-'') (String_of_nat n @ CHR ''-'' # rest) =
      String_of_nat n"
    by (simp add: takeWhile_append2 no_dash)
  with eq have "String_of_nat i = String_of_nat j"
    by metis
  then show "i = j" by (rule String_of_nat_inj)
qed

section \<open>The created roadmap\<close>

lemma item_id_with_id: "item_id (with_id now (i, d)) = todo_id i (now i)"
  by (simp add: with_id_def RoadmapDraft.extend_def RoadmapItem.fields_def)

lemma completed_with_id: "completed (with_id now p) = False"
  by (cases p) (simp add: with_id_def RoadmapDraft.extend_def RoadmapItem.fields_def)

lemma ids_created:
  "map item_id (roadmapWithIds now ds) = map (\<lambda>i. todo_id i (now i)) [0..<length ds]"
proof -
  have "map item_id (roadmapWithIds now ds) =
      map (\<lambda>p. todo_id (fst p) (now (fst p))) (enumerate 0 ds)"
    by (auto simp: roadmapWithIds_def item_id_with_id)
  also have "\<dots> = map (\<lambda>i. todo_id i (now i)) (map fst (enumerate 0 ds))"
    by (simp only: map_map comp_def)
  also have "map fst (enumerate 0 ds) = [0..<length ds]"
    by simp
  finally show ?thesis .
qed

lemma ids_created_distinct: "distinct (map item_id (roadmapWithIds now ds))"
  unfolding ids_created
  by (simp add: distinct_map inj_on_def) (blast dest: todo_id_inj)

section \<open>Toggling\<close>

lemma ids_toggleTodo [simp]: "map item_id (toggleTodo ident xs) = map item_id xs"
  by (induction xs) (simp_all add: toggleTodo_def)

lemma length_toggleTodo [simp]: "length (toggleTodo ident xs) = length xs"
  by (simp add: toggleTodo_def)

lemma ids_toggled: "map item_id (toggled clicks xs) = map item_id xs"
  unfolding toggled_def by (induction clicks arbitrary: xs) simp_all

lemma toggleTodo_frame:
  assumes "distinct (map item_id xs)" and "k < length xs"
  shows "toggleTodo (item_id (xs ! k)) xs = xs[k := (xs ! k)\<lparr>completed := \<not> completed (xs ! k)\<rparr>]"
proof (rule nth_equalityI)
  show "length (toggleTodo (item_id (xs ! k)) xs) =
      length (xs[k := (xs ! k)\<lparr>completed := \<not> completed (xs ! k)\<rparr>])"
    by simp
next
  fix i
  assume "i < length (toggleTodo (item_id (xs ! k)) xs)"
  then have i: "i < length xs" by simp
  have "item_id (xs ! i) = item_id (xs ! k) \<longleftrightarrow> i = k"
    using assms i nth_eq_iff_index_eq [of "map item_id xs" i k] by simp
  then show "toggleTodo (item_id (xs ! k)) xs ! i =
      xs[k := (xs ! k)\<lparr>completed := \<not> completed (xs ! k)\<rparr>] ! i"
    using i by (auto simp: toggleTodo_def)
qed

section \<open>C9: roadmap items\<close>

text \<open>
  Claim C9. The roadmap that \<^verbatim>\<open>setRoadmap\<close> creates has pairwise different identifiers
  and every item has \<open>completed = False\<close>. After any number of clicks the identifiers are
  the ones given at creation; and \<^verbatim>\<open>toggleTodo\<close> on the identifier of the item at position
  \<open>k\<close> returns the same list with that one item replaced by itself with its
  \<open>completed\<close> flag negated: no other field of the item and no other item changes.
\<close>

theorem roadmap_ids_unique_toggle_changes_one_flag:
  "distinct (map item_id (roadmapWithIds now drafts)) \<and>
   (\<forall>item \<in> set (roadmapWithIds now drafts). completed item = False) \<and>
   map item_id (toggled clicks (roadmapWithIds now drafts)) =
     map item_id (roadmapWithIds now drafts) \<and>
   (\<forall>k < length (toggled clicks (roadmapWithIds now drafts)).
      toggleTodo (item_id (toggled clicks (roadmapWithIds now drafts) ! k))
          (toggled clicks (roadmapWithIds now drafts)) =
        (toggled clicks (roadmapWithIds now drafts))
          [k := (toggled clicks (roadmapWithIds now drafts) ! k)
                  \<lparr>completed := \<not> completed (toggled clicks (roadmapWithIds now drafts) ! k)\<rparr>])"
proof (intro conjI allI impI ballI)
  show "distinct (map item_id (roadmapWithIds now drafts))"
    by (rule ids_created_distinct)
  show "map item_id (toggled clicks (roadmapWithIds now drafts)) =
      map item_id (roadmapWithIds now drafts)"
    by (rule ids_toggled)
next
  fix item
  assume "item \<in> set (roadmapWithIds now drafts)"
  then show "completed item = False"
    by (auto simp: roadmapWithIds_def completed_with_id)
next
  fix k
  assume "k < length (toggled clicks (roadmapWithIds now drafts))"
  moreover have "distinct (map item_id (toggled clicks (roadmapWithIds now drafts)))"
    by (simp add: ids_toggled ids_created_distinct)
  ultimately show "toggleTodo (item_id (toggled clicks (roadmapWithIds now drafts) ! k))
          (toggled clicks (roadmapWithIds now drafts)) =
        (toggled clicks (roadmapWithIds now drafts))
          [k := (toggled clicks (roadmapWithIds now drafts) ! k)
                  \<lparr>completed := \<not> completed (toggled clicks (roadmapWithIds now drafts) ! k)\<rparr>]"
    by (intro toggleTodo_frame)
qed

theorem roadmap_ids_unique_toggle_changes_one_flag_witness:
  "distinct (map item_id (roadmapWithIds sample_clock [sample_draft, sample_draft])) \<and>
   map item_id (roadmapWithIds sample_clock [sample_draft, sample_draft]) =
     [''todo-0-1700000000000'', ''todo-1-1700000000001''] \<and>
   map completed (roadmapWithIds sample_clock [sample_draft, sample_draft]) = [False, False] \<and>
   (1::nat) < length (toggled [''todo-0-1700000000000'']
     (roadmapWithIds sample_clock [sample_draft, sample_draft])) \<and>
   map completed (toggled [''todo-0-1700000000000'']
     (roadmapWithIds sample_clock [sample_draft, sample_draft])) = [True, False] \<and>
   toggleTodo ''todo-1-1700000000001''
       (toggled [''todo-0-1700000000000''] (roadmapWithIds sample_clock [sample_draft, sample_draft])) =
     (toggled [''todo-0-1700000000000''] (roadmapWithIds sample_clock [sample_draft, sample_draft]))
       [1 := (toggled [''todo-0-1700000000000'']
                (roadmapWithIds sample_clock [sample_draft, sample_draft]) ! 1)
             \<lparr>completed := True\<rparr>]"
proof -
  define rm where "rm = roadmapWithIds sample_clock [sample_draft, sample_draft]"
  define after where "after = toggled [''todo-0-1700000000000''] rm"
  have rm: "rm =
      [RoadmapDraft.extend sample_draft (RoadmapItem.fields ''todo-0-1700000000000'' False),
       RoadmapDraft.extend sample_draft (RoadmapItem.fields ''todo-1-1700000000001'' False)]"
    by (simp add: rm_def roadmapWithIds_def with_id_def todo_id_def sample_clock_def
        String_of_int_def String_of_nat.simps digit_char_def)
  have ids: "map item_id rm = [''todo-0-1700000000000'', ''todo-1-1700000000001'']"
    and flags: "map completed rm = [False, False]"
    by (simp_all add: rm RoadmapDraft.extend_def RoadmapItem.fields_def)
  have after: "after =
      [RoadmapDraft.extend sample_draft (RoadmapItem.fields ''todo-0-1700000000000'' True),
       RoadmapDraft.extend sample_draft (RoadmapItem.fields ''todo-1-1700000000001'' False)]"
    by (simp add: after_def toggled_def toggleTodo_def rm RoadmapDraft.extend_def
        RoadmapItem.fields_def)
  have len: "1 < length after" and id1: "item_id (after ! 1) = ''todo-1-1700000000001''"
    and c1: "completed (after ! 1) = False" and flags': "map completed after = [True, False]"
    by (simp_all add: after RoadmapDraft.extend_def RoadmapItem.fields_def)
  note th = roadmap_ids_unique_toggle_changes_one_flag
    [of sample_clock "[sample_draft, sample_draft]" "[''todo-0-1700000000000'']",
      folded rm_def, folded after_def]
  from th have "distinct (map item_id rm)"
    by blast
  moreover from th len have "toggleTodo (item_id (after ! 1)) after =
      after[1 := (after ! 1)\<lparr>completed := \<not> completed (after ! 1)\<rparr>]"
    by blast
  ultimately show ?thesis
    using ids flags len flags' unfolding id1 c1 rm_def [symmetric] after_def [symmetric]
    by simp
qed


section \<open>A turn that uses up its attempts\<close>

lemma loop_all_fail:
  assumes "\<not> completes (P m 0)" and "\<not> completes (P m 1)" and "\<not> completes (P m 2)"
  shows "getNextAiMessage P m s =
     turn_exhausted (streamed (P m 2) (streamNextQuestion_called m
       (turn_retry 2 (streamed (P m 1) (streamNextQuestion_called m
         (turn_retry 1 (streamed (P m 0) (streamNextQuestion_called m s))))))))"
proof -
  let ?s1 = "turn_retry 1 (streamed (P m 0) (streamNextQuestion_called m s))"
  let ?s2 = "turn_retry 2 (streamed (P m 1) (streamNextQuestion_called m ?s1))"
  have "getNextAiMessage P m s = getNextAiMessage_from P m 1 ?s1"
    using assms(1) by (simp add: getNextAiMessage_def loop_retry)
  also have "\<dots> = getNextAiMessage_from P m 2 ?s2"
    using assms(2) loop_retry [of 1 P m ?s1] by (simp add: numeral_2_eq_2)
  also have "\<dots> = turn_exhausted (streamed (P m 2) (streamNextQuestion_called m ?s2))"
    using assms(3) by (rule loop_exhausted)
  finally show ?thesis .
qed

lemma effects_turn_exhausted:
  "effects (turn_exhausted s) =
     effects s @ [AddMessageToTranscript closingUtterance, SetCurrentAiResponse [],
                  Speak errorMessage SetPageResults]"
  by (simp add: turn_exhausted_def speak_def setCurrentAiResponse_def
      addMessageToTranscript_def closingUtterance_def)

lemma turn_exhausted_fields [simp]:
  "page (turn_exhausted s) = page s"
  "user (turn_exhausted s) = user s"
  "evaluation (turn_exhausted s) = evaluation s"
  "speaking (turn_exhausted s) = Some SetPageResults"
  by (simp_all add: turn_exhausted_def speak_def setCurrentAiResponse_def
      addMessageToTranscript_def)

lemma streamed_fields [simp]:
  "page (streamed g s) = page s"
  "user (streamed g s) = user s"
  "evaluation (streamed g s) = evaluation s"
  by (simp_all add: streamed_eq)

lemma called_fields [simp]:
  "page (streamNextQuestion_called m s) = page s"
  "user (streamNextQuestion_called m s) = user s"
  "evaluation (streamNextQuestion_called m s) = evaluation s"
  by (simp_all add: streamNextQuestion_called_def)

lemma turn_retry_fields [simp]:
  "page (turn_retry a s) = page s"
  "user (turn_retry a s) = user s"
  "evaluation (turn_retry a s) = evaluation s"
  by (simp_all add: turn_retry_def setTimeout_def setCurrentAiResponse_def)

lemma speechEnded_results:
  "speaking s = Some SetPageResults \<Longrightarrow>
   speechEnded s = s\<lparr>speaking := None, page := Results\<rparr>"
  by (simp add: speechEnded_def setPage_def)

section \<open>The pipeline's first call and the prompt\<close>

lemma results_first_call:
  assumes "user r = Some u" and "transcript r \<noteq> []"
  shows "\<exists>rest. effects (fetchResults gE gR now r) =
     effects r @ GenerateEvaluation (transcript r) (goal u) # rest"
proof -
  let ?ok = "pass_ok gE gR (transcript r) (goal u)"
  have first: "\<exists>rest. pass_calls gE (transcript r) (goal u) 0 =
      GenerateEvaluation (transcript r) (goal u) # rest"
    by (simp add: pass_calls_def split: option.split)
  consider "?ok 0" | "\<not> ?ok 0" "?ok 1" | "\<not> ?ok 0" "\<not> ?ok 1"
    by blast
  then show ?thesis
  proof cases
    case 1
    with first show ?thesis
      unfolding fetchResults_guarded [OF assms] by (auto simp: results_trace_first)
  next
    case 2
    with first show ?thesis
      unfolding fetchResults_guarded [OF assms] by (auto simp: results_trace_second)
  next
    case 3
    with first show ?thesis
      unfolding fetchResults_guarded [OF assms] by (auto simp: results_trace_third)
  qed
qed

lemma serialize_snoc_ai:
  "msg_speaker m = Ai \<Longrightarrow>
   fst (serializeTranscript (ms @ [m])) =
     fst (serializeTranscript ms) @ ''ai: '' @ msg_text m @ ''\<newline>''"
  by (simp add: serializeTranscript_def appendMessage_def split_beta Let_def)

lemma prompt_has_line:
  "msg_speaker m = Ai \<Longrightarrow>
   sublist (''ai: '' @ msg_text m @ ''\<newline>'') (evaluationPrompt (ms @ [m]) g)"
  unfolding evaluationPrompt_def serialize_snoc_ai sublist_def
  by (metis append.assoc)


lemma mount_fields [simp]:
  "user (mountResultsPage c) = user c"
  "transcript (mountResultsPage c) = transcript c"
  "evaluation (mountResultsPage c) = evaluation c"
  "effects (mountResultsPage c) = effects c"
  by (simp_all add: mountResultsPage_def)

section \<open>What a finished turn changes\<close>

lemma same_session_refl [simp]: "same_session s s"
  by (simp add: same_session_def)

lemma same_session_trans: "same_session s s1 \<Longrightarrow> same_session s1 s2 \<Longrightarrow> same_session s s2"
  by (simp add: same_session_def)

lemma same_session_streamed [simp]: "same_session s (streamed g s)"
  by (simp add: same_session_def streamed_eq)

lemma same_session_called [simp]: "same_session s (streamNextQuestion_called m s)"
  by (simp add: same_session_def streamNextQuestion_called_def)

lemma same_session_retry [simp]: "same_session s (turn_retry a s)"
  by (simp add: same_session_def turn_retry_def setTimeout_def setCurrentAiResponse_def)

lemma same_session_attempt:
  "same_session s (streamed g (streamNextQuestion_called m s))"
  by (rule same_session_trans [OF same_session_called same_session_streamed])

lemma loop_outcome:
  "a \<le> 2 \<Longrightarrow>
   \<exists>t s1. same_session s s1 \<and>
     (getNextAiMessage_from P m a s = turn_succeeded t s1 \<or>
      getNextAiMessage_from P m a s = turn_exhausted s1)"
proof (induction "2 - a" arbitrary: a s)
  case 0
  then have a: "a = 2" by simp
  show ?case
  proof (cases "completes (P m 2)")
    case True
    then show ?thesis
      unfolding a using same_session_attempt [of s "P m 2" m]
      by (subst loop_success) auto
  next
    case False
    then show ?thesis
      unfolding a using same_session_attempt [of s "P m 2" m]
      by (subst loop_exhausted) auto
  qed
next
  case (Suc d)
  then have a: "a < 2" by simp
  show ?case
  proof (cases "completes (P m a)")
    case True
    then show ?thesis
      using a same_session_attempt [of s "P m a" m]
      by (subst loop_success) auto
  next
    case False
    let ?s' = "turn_retry (Suc a) (streamed (P m a) (streamNextQuestion_called m s))"
    have step: "getNextAiMessage_from P m a s = getNextAiMessage_from P m (Suc a) ?s'"
      using a False by (rule loop_retry)
    have "d = 2 - Suc a" and "Suc a \<le> 2"
      using Suc.hyps(2) a by simp_all
    then obtain t s1 where s1: "same_session ?s' s1"
      and out: "getNextAiMessage_from P m (Suc a) ?s' = turn_succeeded t s1 \<or>
        getNextAiMessage_from P m (Suc a) ?s' = turn_exhausted s1"
      using Suc.hyps(1) [of "Suc a" ?s'] by blast
    have "same_session s ?s'"
      by (rule same_session_trans [OF same_session_attempt same_session_retry])
    then have "same_session s s1"
      using s1 by (rule same_session_trans)
    with out show ?thesis
      unfolding step by blast
  qed
qed

lemma turn_succeeded_fields:
  "inFlight (turn_succeeded t s) = inFlight s"
  "isListening (turn_succeeded t s) = isListening s"
  "page (turn_succeeded t s) = page s"
  by (simp_all add: turn_succeeded_def speak_def setStatus_def setCurrentAiResponse_def
      addMessageToTranscript_def)

lemma turn_exhausted_session:
  "inFlight (turn_exhausted s) = inFlight s"
  "isListening (turn_exhausted s) = isListening s"
  by (simp_all add: turn_exhausted_def speak_def setCurrentAiResponse_def
      addMessageToTranscript_def)

lemma turn_appends_ai:
  "\<exists>a. msg_speaker a = Ai \<and>
     transcript (getNextAiMessage P m s) = transcript s @ [a] \<and>
     inFlight (getNextAiMessage P m s) = inFlight s"
proof -
  obtain t s1 where s1: "same_session s s1"
    and out: "getNextAiMessage P m s = turn_succeeded t s1 \<or>
      getNextAiMessage P m s = turn_exhausted s1"
    unfolding getNextAiMessage_def using loop_outcome [of 0 s P m] by auto
  from out show ?thesis
  proof
    assume "getNextAiMessage P m s = turn_succeeded t s1"
    with s1 show ?thesis
      by (simp add: same_session_def transcript_turn_succeeded turn_succeeded_fields)
  next
    assume "getNextAiMessage P m s = turn_exhausted s1"
    with s1 show ?thesis
      by (simp add: same_session_def transcript_turn_exhausted turn_exhausted_session)
  qed
qed

section \<open>The states of a visit are orderly\<close>

lemma orderly_enter: "transcript (c :: app_context) = [] \<Longrightarrow> orderly (mountInterviewPage c)"
  by (simp add: orderly_def mountInterviewPage_def openingEffect_def replyEffect_def)

lemma orderly_turn:
  assumes "orderly s" and "message \<in> set (inFlight s)"
  shows "orderly (getNextAiMessage P message (s\<lparr>inFlight := remove1 message (inFlight s)\<rparr>))"
proof -
  let ?s0 = "s\<lparr>inFlight := remove1 message (inFlight s)\<rparr>"
  obtain a where a: "msg_speaker a = Ai"
    and t: "transcript (getNextAiMessage P message ?s0) = transcript s @ [a]"
    and f: "inFlight (getNextAiMessage P message ?s0) = remove1 message (inFlight s)"
    using turn_appends_ai [of P message ?s0] by auto
  have "length (remove1 message (inFlight s)) = length (inFlight s) - 1"
    using assms(2) by (simp add: length_remove1)
  moreover have "length (inFlight s) > 0"
    using assms(2) by (cases "inFlight s") simp_all
  ultimately show ?thesis
    using assms(1) a unfolding orderly_def t f
    by (cases "transcript s") auto
qed

lemma orderly_step: "step s a s' \<Longrightarrow> orderly s \<Longrightarrow> orderly s'"
proof (induction rule: step.induct)
  case (turn s message streamNextQuestion)
  then show ?case by (simp add: orderly_turn)
next
  case (playback s)
  then show ?case
    by (auto simp: orderly_def speechEnded_def setStatus_def setPage_def
        split: option.splits on_end.splits)
next
  case (mic s)
  then show ?case
    by (auto simp: orderly_def handleMicClick_def micDisabled_def)
next
  case (stops s)
  then show ?case
    by (auto simp: orderly_def)
next
  case (speech s t img)
  then show ?case
    by (cases "transcript s")
       (auto simp: orderly_def replyEffect_def handleUserSpeech_def setStatus_def
          addMessageToTranscript_def)
next
  case (finish s)
  then show ?case
    by (auto simp: orderly_def handleFinishInterview_def setStatus_def setPage_def
        finishDisabled_def)
qed

lemma reachable_orderly: "reachable s \<Longrightarrow> orderly s"
  by (induction rule: reachable.induct) (simp_all add: orderly_enter orderly_step)

lemma not_ai: "msg_speaker r \<noteq> Ai \<longleftrightarrow> msg_speaker r = User"
  by (cases "msg_speaker r") simp_all

lemma orderly_exchange:
  assumes "orderly s"
  shows "full_exchange (transcript s) \<longleftrightarrow> 2 \<le> length (transcript s)"
proof (cases "transcript s")
  case Nil
  then show ?thesis by (simp add: full_exchange_def)
next
  case (Cons m rest)
  with assms have head: "msg_speaker m = Ai"
    by (simp add: orderly_def)
  show ?thesis
  proof (cases "\<forall>r \<in> set (transcript s). msg_speaker r = Ai")
    case True
    with assms have "length (transcript s) \<le> 1"
      by (simp add: orderly_def)
    with True Cons show ?thesis
      by (auto simp: full_exchange_def list_ex_iff)
  next
    case False
    then obtain r where "r \<in> set (transcript s)" and "msg_speaker r = User"
      by (auto simp: not_ai)
    with head Cons have "r \<in> set rest"
      by auto
    with \<open>msg_speaker r = User\<close> have "list_ex (\<lambda>r. msg_speaker r = User) rest" and "rest \<noteq> []"
      by (auto simp: list_ex_iff)
    with head Cons show ?thesis
      by (cases rest) (simp_all add: full_exchange_def)
  qed
qed

section \<open>C8: the Finish button\<close>

text \<open>
  Claim C8. In every state of a visit of the interview page that starts with an empty
  transcript, the Finish button is enabled exactly when a full exchange has occurred (the
  transcript opens with an interviewer utterance and a candidate utterance follows); where
  no full exchange has occurred, no Finish step exists.
\<close>

theorem finish_enabled_only_after_full_exchange:
  assumes "reachable s"
  shows "(\<not> finishDisabled s \<longleftrightarrow> full_exchange (transcript s)) \<and>
         (\<not> full_exchange (transcript s) \<longrightarrow> \<not> (\<exists>s'. step s FinishInterview s'))"
proof -
  have "orderly s"
    using assms by (rule reachable_orderly)
  then have eq: "\<not> finishDisabled s \<longleftrightarrow> full_exchange (transcript s)"
    by (auto simp: orderly_exchange finishDisabled_def)
  moreover have "\<not> finishDisabled s" if "step s FinishInterview s'" for s'
    using that by (cases rule: step.cases) simp_all
  ultimately show ?thesis
    by blast
qed



lemma after_opening_value:
  "after_opening =
     \<lparr>page = Interview, user = Some sample_user, interviewTypes = [technical],
      transcript = [\<lparr>msg_speaker = Ai, msg_text = ''Tell me about yourself.'', msg_image = None\<rparr>],
      evaluation = None, roadmap = [],
      effects =
        [StreamNextQuestion ''Start the interview.'',
         SetCurrentAiResponse ''Tell me about yourself.'',
         AddMessageToTranscript
           \<lparr>msg_speaker = Ai, msg_text = ''Tell me about yourself.'', msg_image = None\<rparr>,
         SetCurrentAiResponse [],
         Speak ''Tell me about yourself.'' SetStatusIdle],
      status = Speaking, currentAiResponse = [], isListening = False,
      speaking = Some SetStatusIdle, inFlight = []\<rparr>"
  by (simp add: after_opening_def getNextAiMessage_def getNextAiMessage_from.simps [of _ _ 0]
      processStream_def maxRetries_def stream_at_once_def mountInterviewPage_def
      openingEffect_def replyEffect_def sample_context_def turn_succeeded_def speak_def
      setStatus_def setCurrentAiResponse_def addMessageToTranscript_def
      streamNextQuestion_called_def)

lemma reachable_after_opening: "reachable after_opening"
proof -
  let ?s0 = "mountInterviewPage sample_context"
  have "reachable ?s0"
    by (rule reachable.enter) (simp add: sample_context_def)
  moreover have "''Start the interview.'' \<in> set (inFlight ?s0)"
    by (simp add: mountInterviewPage_def openingEffect_def replyEffect_def sample_context_def)
  then have "step ?s0 (TurnFinishes ''Start the interview.'') after_opening"
    unfolding after_opening_def by (rule step.turn)
  ultimately show ?thesis
    by (rule reachable.after)
qed

lemma reachable_after_reply: "reachable after_reply"
proof -
  let ?s2 = "speechEnded after_opening"
  let ?s3 = "handleMicClick ?s2"
  have "step after_opening PlaybackEnds ?s2"
    by (rule step.playback) (simp_all add: after_opening_value)
  with reachable_after_opening have r2: "reachable ?s2"
    by (rule reachable.after)
  have "step ?s2 MicClick ?s3"
    by (rule step.mic)
       (simp_all add: after_opening_value speechEnded_def setStatus_def micDisabled_def)
  with r2 have r3: "reachable ?s3"
    by (rule reachable.after)
  have "step ?s3 (FinalSpeech ''I analyse data.'' None) after_reply"
    unfolding after_reply_def
    by (rule step.speech)
       (simp_all add: after_opening_value speechEnded_def setStatus_def handleMicClick_def)
  with r3 show ?thesis
    by (rule reachable.after)
qed

lemma after_reply_transcript: "transcript after_reply = sample_transcript"
  by (simp add: after_reply_def after_opening_value speechEnded_def setStatus_def
      handleMicClick_def handleUserSpeech_def addMessageToTranscript_def replyEffect_def
      sample_transcript_def)

theorem finish_enabled_only_after_full_exchange_witness:
  "reachable after_opening \<and>
   \<not> full_exchange (transcript after_opening) \<and>
   finishDisabled after_opening \<and>
   \<not> (\<exists>s'. step after_opening FinishInterview s') \<and>
   reachable after_reply \<and>
   full_exchange (transcript after_reply) \<and>
   \<not> finishDisabled after_reply"
proof -
  have no: "\<not> full_exchange (transcript after_opening)"
    by (simp add: after_opening_value full_exchange_def)
  have yes: "full_exchange (transcript after_reply)"
    by (simp add: after_reply_transcript sample_transcript_def full_exchange_def)
  show ?thesis
    using finish_enabled_only_after_full_exchange [OF reachable_after_opening]
      finish_enabled_only_after_full_exchange [OF reachable_after_reply]
      reachable_after_opening reachable_after_reply no yes
    by blast
qed


section \<open>A Finish click while a turn is in flight\<close>

lemma evaluation_calls_of_trace:
  "filter is_evaluation_call es = filter is_evaluation_call (attempts_and_delays es)"
proof -
  have "\<And>e. is_evaluation_call e \<Longrightarrow> is_attempt_or_delay e"
    by (case_tac e) simp_all
  then show ?thesis
    unfolding attempts_and_delays_def filter_filter
    by (intro filter_cong) auto
qed

lemma turn_makes_no_evaluation_call:
  "filter is_evaluation_call (effects (getNextAiMessage P m s)) =
     filter is_evaluation_call (effects s)"
proof -
  consider "completes (P m 0)" | "\<not> completes (P m 0)" "completes (P m 1)"
    | "\<not> completes (P m 0)" "\<not> completes (P m 1)"
    by blast
  then show ?thesis
  proof cases
    case 1
    then show ?thesis
      by (simp add: evaluation_calls_of_trace [of "effects (getNextAiMessage P m s)"]
          evaluation_calls_of_trace [of "effects s"] turn_trace_first)
  next
    case 2
    then show ?thesis
      by (simp add: evaluation_calls_of_trace [of "effects (getNextAiMessage P m s)"]
          evaluation_calls_of_trace [of "effects s"] turn_trace_second)
  next
    case 3
    then show ?thesis
      by (simp add: evaluation_calls_of_trace [of "effects (getNextAiMessage P m s)"]
          evaluation_calls_of_trace [of "effects s"] turn_trace_third)
  qed
qed

lemma withContext_fields [simp]:
  "user (withContext c s) = user c"
  "transcript (withContext c s) = transcript c"
  "evaluation (withContext c s) = evaluation c"
  "effects (withContext c s) = effects c"
  "page (withContext c s) = page c"
  by (simp_all add: withContext_def)

lemma finished_early_fields:
  "page finished_early = Results"
  "user finished_early = Some sample_user"
  "transcript finished_early = sample_transcript"
  "evaluation finished_early = None"
  "inFlight finished_early = [''I analyse data.'']"
  "filter is_evaluation_call (effects finished_early) = []"
  by (simp_all add: finished_early_def handleFinishInterview_def setPage_def setStatus_def
      after_reply_def after_opening_value speechEnded_def handleMicClick_def
      handleUserSpeech_def addMessageToTranscript_def replyEffect_def sample_transcript_def)

lemma evaluated_early_run:
  "evaluated_early =
     snd (fetchResults_try evaluation_delivered roadmap_delivered sample_clock sample_user 0
       (mountResultsPage finished_early))"
proof -
  let ?r = "mountResultsPage finished_early"
  have u: "user ?r = Some sample_user" and t: "transcript ?r \<noteq> []" and e: "evaluation ?r = None"
    by (simp_all add: finished_early_fields sample_transcript_def)
  have "pass_ok evaluation_delivered roadmap_delivered (transcript ?r) (goal sample_user) 0"
    by (simp add: pass_ok_def evaluation_delivered_def roadmap_delivered_def)
  then have "fetchResults_from evaluation_delivered roadmap_delivered sample_clock sample_user 0 ?r =
      snd (fetchResults_try evaluation_delivered roadmap_delivered sample_clock sample_user 0 ?r)"
    by (intro results_pass_ok) simp_all
  then show ?thesis
    unfolding evaluated_early_def resultsEffect_def
    using e by (simp only: fetchResults_guarded [OF u t] if_True refl)
qed

lemma evaluated_early_fields:
  "user evaluated_early = Some sample_user"
  "transcript evaluated_early = sample_transcript"
  "evaluation evaluated_early = Some sample_evaluation"
  "effects evaluated_early =
     effects finished_early @
       [GenerateEvaluation sample_transcript ''Data Analyst'',
        GenerateRoadmap Intermediate ''Data Analyst'']"
proof -
  have g: "goal sample_user = ''Data Analyst''" and l: "level sample_evaluation = Intermediate"
    by (simp_all add: sample_user_def sample_evaluation_def)
  show "user evaluated_early = Some sample_user"
    unfolding evaluated_early_run
    by (simp add: fetchResults_try_def Let_def evaluation_delivered_def roadmap_delivered_def
        called_def setLoadingMessage_def setError_def setIsLoading_def setEvaluation_def
        setRoadmap_def finished_early_fields)
  show "transcript evaluated_early = sample_transcript"
    unfolding evaluated_early_run by (simp add: finished_early_fields)
  show "evaluation evaluated_early = Some sample_evaluation"
    unfolding evaluated_early_run by (simp add: try_evaluation evaluation_delivered_def)
  show "effects evaluated_early =
     effects finished_early @
       [GenerateEvaluation sample_transcript ''Data Analyst'',
        GenerateRoadmap Intermediate ''Data Analyst'']"
    unfolding evaluated_early_run
    by (simp add: try_effects pass_calls_def evaluation_delivered_def finished_early_fields g l)
qed

lemma closing_late_fields:
  "transcript closing_late = sample_transcript @ [closingUtterance]"
  "evaluation closing_late = Some sample_evaluation"
  "user closing_late = Some sample_user"
  "filter is_evaluation_call (effects closing_late) =
     [GenerateEvaluation sample_transcript ''Data Analyst'']"
proof -
  let ?s = "withContext evaluated_early
      (finished_early\<lparr>inFlight := remove1 ''I analyse data.'' (inFlight finished_early)\<rparr>)"
  have c: "\<And>n. \<not> completes (stream_never ''I analyse data.'' n)"
    by (simp add: stream_never_def)
  have eq: "closing_late =
     turn_exhausted (streamed (stream_never ''I analyse data.'' 2) (streamNextQuestion_called ''I analyse data.''
       (turn_retry 2 (streamed (stream_never ''I analyse data.'' 1) (streamNextQuestion_called ''I analyse data.''
         (turn_retry 1 (streamed (stream_never ''I analyse data.'' 0)
           (streamNextQuestion_called ''I analyse data.'' ?s))))))))"
    unfolding closing_late_def
    by (rule loop_all_fail [of stream_never "''I analyse data.''", OF c [of 0] c [of 1] c [of 2]])
  show "transcript closing_late = sample_transcript @ [closingUtterance]"
    by (simp add: eq transcript_turn_exhausted closingUtterance_def evaluated_early_fields)
  show "evaluation closing_late = Some sample_evaluation"
    by (simp add: eq evaluated_early_fields)
  show "user closing_late = Some sample_user"
    by (simp add: eq evaluated_early_fields)
  show "filter is_evaluation_call (effects closing_late) =
      [GenerateEvaluation sample_transcript ''Data Analyst'']"
    unfolding closing_late_def turn_makes_no_evaluation_call
    by (simp add: evaluated_early_fields finished_early_fields)
qed

lemma effect_rerun_fields:
  "transcript effect_rerun = sample_transcript @ [closingUtterance]"
  "filter is_evaluation_call (effects effect_rerun) =
     [GenerateEvaluation sample_transcript ''Data Analyst'']"
  by (simp_all add: effect_rerun_def resultsEffect_def setIsLoading_def closing_late_fields)

section \<open>C10: the closing line\<close>

text \<open>
  Claim C10 fails where it concludes that the closing line is in the transcript that
  \<^verbatim>\<open>generateEvaluation\<close> serializes. The Finish button is enabled while the turn for the
  candidate's reply is in flight; after the click the results page calls
  \<^verbatim>\<open>generateEvaluation\<close> with the two utterances there are and stores the evaluation; the
  turn then uses up its attempts and appends the closing line; the effect of the results
  page runs again and makes no further call. The one transcript that was evaluated does
  not hold the closing line.
\<close>

theorem closing_line_after_evaluation_counterexample:
  "reachable after_reply \<and>
   \<not> finishDisabled after_reply \<and>
   inFlight after_reply = [''I analyse data.''] \<and>
   page finished_early = Results \<and>
   filter is_evaluation_call (effects evaluated_early) =
     [GenerateEvaluation sample_transcript ''Data Analyst''] \<and>
   evaluation evaluated_early = Some sample_evaluation \<and>
   transcript closing_late = sample_transcript @ [closingUtterance] \<and>
   transcript effect_rerun = sample_transcript @ [closingUtterance] \<and>
   filter is_evaluation_call (effects effect_rerun) =
     [GenerateEvaluation sample_transcript ''Data Analyst''] \<and>
   closingUtterance \<notin> set sample_transcript"
proof -
  have "\<not> finishDisabled after_reply"
    by (simp add: finishDisabled_def after_reply_transcript sample_transcript_def)
  moreover have "inFlight after_reply = [''I analyse data.'']"
    using finished_early_fields(5)
    by (simp add: finished_early_def handleFinishInterview_def setPage_def setStatus_def)
  moreover have "closingUtterance \<notin> set sample_transcript"
    by (simp add: closingUtterance_def sample_transcript_def errorMessage_def)
  ultimately show ?thesis
    using reachable_after_reply
    by (simp add: finished_early_fields evaluated_early_fields closing_late_fields
        effect_rerun_fields)
qed


lemma speechEnded_context [simp]:
  "transcript (speechEnded s) = transcript s"
  "user (speechEnded s) = user s"
  "evaluation (speechEnded s) = evaluation s"
  by (simp_all add: speechEnded_def setStatus_def setPage_def split: option.split on_end.split)

text \<open>
  Claim C10, amended. When all three attempts of a turn throw, \<^verbatim>\<open>getNextAiMessage\<close>
  appends the closing line to the transcript as an utterance of \<open>Ai\<close>, and does so before
  it hands the line to \<^verbatim>\<open>speak\<close>; it leaves the page as it is, and the navigation it asks
  for happens only when playback ends, with the transcript, the user and the evaluation
  unchanged. A results pipeline that starts when the context holds that transcript and no
  evaluation yet (as the one started by that navigation, when the candidate has not clicked
  Finish while the turn was in flight) calls \<^verbatim>\<open>generateEvaluation\<close> with the transcript
  that ends in the closing line, and the evaluation prompt built from that transcript
  contains the line "ai: " followed by the closing line.
\<close>

theorem closing_line_recorded_before_speech_and_in_prompt:
  assumes "\<not> completes (P m 0)" and "\<not> completes (P m 1)" and "\<not> completes (P m 2)"
  shows "transcript (getNextAiMessage P m s) = transcript s @ [closingUtterance] \<and>
         (\<exists>before. effects (getNextAiMessage P m s) =
            before @ [AddMessageToTranscript closingUtterance, SetCurrentAiResponse [],
                      Speak errorMessage SetPageResults]) \<and>
         page (getNextAiMessage P m s) = page s \<and>
         speaking (getNextAiMessage P m s) = Some SetPageResults \<and>
         page (speechEnded (getNextAiMessage P m s)) = Results \<and>
         transcript (speechEnded (getNextAiMessage P m s)) = transcript s @ [closingUtterance] \<and>
         user (speechEnded (getNextAiMessage P m s)) = user s \<and>
         evaluation (speechEnded (getNextAiMessage P m s)) = evaluation s \<and>
         (user c = Some u \<and> evaluation c = None \<and>
          transcript c = transcript (getNextAiMessage P m s) \<longrightarrow>
            (\<exists>rest. effects (resultsEffect gE gR now (mountResultsPage c)) =
               effects c @ GenerateEvaluation (transcript s @ [closingUtterance]) (goal u) # rest)) \<and>
         sublist (''ai: '' @ errorMessage @ ''\<newline>'')
           (evaluationPrompt (transcript (getNextAiMessage P m s)) g)"
proof -
  let ?s' = "getNextAiMessage P m s"
  obtain s1 where s': "?s' = turn_exhausted s1"
    and s1: "transcript s1 = transcript s" "page s1 = page s" "user s1 = user s"
      "evaluation s1 = evaluation s"
    using loop_all_fail [of P m s, OF assms] by simp
  have tr: "transcript ?s' = transcript s @ [closingUtterance]"
    by (simp add: s' s1 transcript_turn_exhausted closingUtterance_def)
  have sp: "speaking ?s' = Some SetPageResults"
    by (simp add: s')
  have ended: "speechEnded ?s' = ?s'\<lparr>speaking := None, page := Results\<rparr>"
    using sp by (rule speechEnded_results)
  have "\<exists>rest. effects (resultsEffect gE gR now (mountResultsPage c)) =
      effects c @ GenerateEvaluation (transcript s @ [closingUtterance]) (goal u) # rest"
    if "user c = Some u \<and> evaluation c = None \<and> transcript c = transcript ?s'"
  proof -
    let ?r = "mountResultsPage c"
    have "user ?r = Some u" and "transcript ?r \<noteq> []" and "evaluation ?r = None"
      and "transcript ?r = transcript s @ [closingUtterance]" and "effects ?r = effects c"
      using that by (simp_all add: tr)
    then show ?thesis
      using results_first_call [of ?r u gE gR now] by (simp add: resultsEffect_def)
  qed
  moreover have "sublist (''ai: '' @ errorMessage @ ''\<newline>'') (evaluationPrompt (transcript ?s') g)"
    using prompt_has_line [of closingUtterance "transcript s" g]
    by (simp add: tr closingUtterance_def)
  moreover have "\<exists>before. effects ?s' =
      before @ [AddMessageToTranscript closingUtterance, SetCurrentAiResponse [],
                Speak errorMessage SetPageResults]"
    by (simp add: s' effects_turn_exhausted)
  moreover have "user ?s' = user s" and "evaluation ?s' = evaluation s" and "page ?s' = page s"
    by (simp_all add: s' s1)
  ultimately show ?thesis
    using tr sp by (simp add: ended)
qed

theorem closing_line_recorded_before_speech_and_in_prompt_witness:
  "\<not> completes (stream_never ''Start the interview.'' 0) \<and>
   \<not> completes (stream_never ''Start the interview.'' 1) \<and>
   \<not> completes (stream_never ''Start the interview.'' 2) \<and>
   user (speechEnded (getNextAiMessage stream_never ''Start the interview.'' sample_interview)) =
     Some sample_user \<and>
   evaluation (speechEnded (getNextAiMessage stream_never ''Start the interview.'' sample_interview)) =
     None \<and>
   transcript (getNextAiMessage stream_never ''Start the interview.'' sample_interview) =
     [closingUtterance] \<and>
   page (getNextAiMessage stream_never ''Start the interview.'' sample_interview) = Interview \<and>
   page (speechEnded (getNextAiMessage stream_never ''Start the interview.'' sample_interview)) =
     Results \<and>
   (\<exists>rest. effects (resultsEffect evaluation_delivered roadmap_fails_once sample_clock
        (mountResultsPage (speechEnded
          (getNextAiMessage stream_never ''Start the interview.'' sample_interview)))) =
      effects (speechEnded (getNextAiMessage stream_never ''Start the interview.'' sample_interview)) @
      GenerateEvaluation [closingUtterance] ''Data Analyst'' # rest) \<and>
   sublist (''ai: '' @ errorMessage @ ''\<newline>'')
     (evaluationPrompt
       (transcript (getNextAiMessage stream_never ''Start the interview.'' sample_interview))
       ''Data Analyst'')"
proof -
  let ?s' = "getNextAiMessage stream_never ''Start the interview.'' sample_interview"
  have c: "\<And>n. \<not> completes (stream_never ''Start the interview.'' n)"
    by (simp add: stream_never_def)
  have f: "user sample_interview = Some sample_user" "evaluation sample_interview = None"
    "transcript sample_interview = []" "page sample_interview = Interview"
    "goal sample_user = ''Data Analyst''"
    by (simp_all add: sample_interview_def sample_user_def)
  note th = closing_line_recorded_before_speech_and_in_prompt
    [where P = stream_never and m = "''Start the interview.''"
      and s = sample_interview and u = sample_user and gE = evaluation_delivered
      and gR = roadmap_fails_once and now = sample_clock and g = "''Data Analyst''"
      and c = "speechEnded (getNextAiMessage stream_never ''Start the interview.'' sample_interview)",
     OF c [of 0] c [of 1] c [of 2]]
  from th have tr: "transcript ?s' = [closingUtterance]"
    by (simp add: f)
  from th have u: "user (speechEnded ?s') = Some sample_user"
    and e: "evaluation (speechEnded ?s') = None"
    by (simp_all add: f)
  from th u e have "\<exists>rest. effects (resultsEffect evaluation_delivered roadmap_fails_once sample_clock
        (mountResultsPage (speechEnded ?s'))) =
      effects (speechEnded ?s') @ GenerateEvaluation [closingUtterance] ''Data Analyst'' # rest"
    by (simp add: f)
  then show ?thesis
    using th c f u e unfolding tr by simp
qed


end
